theory Spec2Isabelle
  imports Main "HOL-Library.List_Lexorder" "HOL-Library.Char_ord"
begin

text \<open>
  The velero-integrator charm takes the backup specifications that client applications
  publish on \<open>k8s-backup-target\<close> relations, merges each with the schedule options of
  its own configuration, and republishes the result on its \<open>velero-backup\<close> relations.
  The first chapter is the program, function by function: the two regular expressions and
  the matcher they are run with, the configuration and its validation, the target
  specification, the merge, the collection of targets, the publishing loops and the
  reconciliation pass. The second chapter holds the notions that the statements are
  phrased in, the third the properties and their proofs.
\<close>

chapter \<open>The program\<close>

section \<open>Strings and Python regular expressions\<close>

text \<open>
  Python strings are modelled as \<^typ>\<open>string\<close>, a character being a code point below 256.
  On that range Python's \<open>\d\<close> matches the ten ASCII digits only, and \<open>\s\<close> matches
  the characters for which \<open>str.isspace\<close> holds: 0x09 to 0x0D, 0x1C to 0x20, 0x85 and 0xA0.
\<close>

definition is_digit :: "char \<Rightarrow> bool" where
  "is_digit c = (48 \<le> (of_char c :: nat) \<and> (of_char c :: nat) \<le> 57)"

definition is_space :: "char \<Rightarrow> bool" where
  "is_space c = (let n = (of_char c :: nat) in
     (9 \<le> n \<and> n \<le> 13) \<or> (28 \<le> n \<and> n \<le> 32) \<or> n = 133 \<or> n = 160)"

definition newline :: char where
  "newline = CHR 0x0A"

text \<open>
  The fragment of the \<open>re\<close> syntax that the two patterns of the program use. \<open>Bol\<close> is
  \<open>^\<close>, \<open>Eol\<close> is \<open>$\<close>, \<open>AnyChar\<close> is \<open>.\<close>, \<open>Look r\<close> is the lookahead
  \<open>(?=r)\<close>; groups only bracket, since no pattern refers back to one.
\<close>

datatype rx =
    Chr char
  | Digit
  | Space
  | AnyChar
  | Bol
  | Eol
  | Eps
  | Seq rx rx
  | Alt rx rx
  | Star rx
  | Look rx

definition Plus :: "rx \<Rightarrow> rx" where
  "Plus r = Seq r (Star r)"

definition Opt :: "rx \<Rightarrow> rx" where
  "Opt r = Alt r Eps"

fun Seqs :: "rx list \<Rightarrow> rx" where
  "Seqs [] = Eps"
| "Seqs [r] = r"
| "Seqs (r # rs) = Seq r (Seqs rs)"

text \<open>\<open>r{4,5}\<close>: four copies, then an optional fifth.\<close>

definition Rep45 :: "rx \<Rightarrow> rx" where
  "Rep45 r = Seq r (Seq r (Seq r (Seq r (Opt r))))"

text \<open>
  The backtracking matcher. \<open>rests inp r s\<close> lists what can remain of \<open>s\<close>, a suffix of the
  subject \<open>inp\<close>, after \<open>r\<close> has matched at its front, in the order in which the engine
  tries the alternatives (a star is greedy). An iteration of a star that consumes nothing
  is not repeated, as in \<open>re\<close>. \<open>$\<close> holds at the end of the subject and just before a
  newline that ends it; \<open>.\<close> matches anything but a newline (no flags are given).
\<close>

function rests :: "string \<Rightarrow> rx \<Rightarrow> string \<Rightarrow> string list" where
  "rests inp (Chr c) s = (case s of [] \<Rightarrow> [] | x # t \<Rightarrow> if x = c then [t] else [])"
| "rests inp Digit s = (case s of [] \<Rightarrow> [] | x # t \<Rightarrow> if is_digit x then [t] else [])"
| "rests inp Space s = (case s of [] \<Rightarrow> [] | x # t \<Rightarrow> if is_space x then [t] else [])"
| "rests inp AnyChar s = (case s of [] \<Rightarrow> [] | x # t \<Rightarrow> if x \<noteq> newline then [t] else [])"
| "rests inp Bol s = (if length s = length inp then [s] else [])"
| "rests inp Eol s = (if s = [] \<or> s = [newline] then [s] else [])"
| "rests inp Eps s = [s]"
| "rests inp (Seq a b) s = concat (map (rests inp b) (rests inp a s))"
| "rests inp (Alt a b) s = rests inp a s @ rests inp b s"
| "rests inp (Star a) s =
     concat (map (rests inp (Star a)) (filter (\<lambda>t. length t < length s) (rests inp a s))) @ [s]"
| "rests inp (Look a) s = (if rests inp a s = [] then [] else [s])"
  by pat_completeness auto
termination
  by (relation "measures [\<lambda>(inp, r, s). size r, \<lambda>(inp, r, s). length s]") auto

text \<open>The equation of the star unfolds into itself; it is applied by hand.\<close>

declare rests.simps(10) [simp del]

text \<open>\<open>re.match(pattern, s)\<close>: a match object when the pattern matches at position 0, else None.\<close>

definition re_match :: "rx \<Rightarrow> string \<Rightarrow> bool" where
  "re_match pattern s = (rests s pattern s \<noteq> [])"

section \<open>The configuration: \<open>core/charm_config.py\<close>\<close>

text \<open>
  \<open>CRON_FIELD = r"(\*|(\*/\d+)|(\d+(-\d+)?)(,\d+(-\d+)?)*|\?)"\<close> and
  \<open>CRON_REGEX = rf"^{CRON_FIELD}(\s+{CRON_FIELD}){{4,5}}$"\<close>.
\<close>

definition NUM_RANGE :: rx where
  "NUM_RANGE = Seq (Plus Digit) (Opt (Seq (Chr (CHR ''-'')) (Plus Digit)))"

definition CRON_FIELD :: rx where
  "CRON_FIELD =
     Alt (Chr (CHR ''*''))
    (Alt (Seq (Chr (CHR ''*'')) (Seq (Chr (CHR ''/'')) (Plus Digit)))
    (Alt (Seq NUM_RANGE (Star (Seq (Chr (CHR '','')) NUM_RANGE)))
         (Chr (CHR ''?''))))"

definition CRON_BODY :: rx where
  "CRON_BODY = Seq CRON_FIELD (Rep45 (Seq (Plus Space) CRON_FIELD))"

definition CRON_REGEX :: rx where
  "CRON_REGEX = Seq Bol (Seq CRON_BODY Eol)"

record CharmConfig =
  schedule :: "string option"
  paused :: bool
  skip_immediately :: bool
  use_owner_references_in_backup :: bool

text \<open>
  What pydantic raises when a model cannot be built: one entry per failure, each with the
  location \<open>loc\<close> of the failure and a message. A failure raised by a validator of the whole
  model (\<open>mode="after"\<close>) is located at the model itself, the empty tuple.
\<close>

record error_details =
  loc :: "string list"
  msg :: string

datatype exn = ValidationError "error_details list"

definition blank_string :: "string option \<Rightarrow> string option" where
  "blank_string v = (if v = Some [] then None else v)"

text \<open>\<open>validate_schedule\<close>: \<open>Inl\<close> is the message of the \<open>ValueError\<close> it raises.\<close>

definition validate_schedule :: "CharmConfig \<Rightarrow> string + CharmConfig" where
  "validate_schedule self =
     (case schedule self of
        None \<Rightarrow> Inr self
      | Some s \<Rightarrow>
          if s \<noteq> [] \<and> \<not> re_match CRON_REGEX s
          then Inl (''Invalid cron expression: '' @ s @
                    ''. Expected format: '' @ [CHR 0x27] @ ''* * * * *'' @ [CHR 0x27] @
                    '' (min hour day month weekday)'')
          else Inr self)"

text \<open>
  \<open>CharmConfig(schedule=..., paused=..., ...)\<close>: the \<open>before\<close> validator of the field,
  then the \<open>after\<close> validator of the model, whose \<open>ValueError\<close> pydantic wraps.
\<close>

definition CharmConfig_init :: "string option \<Rightarrow> bool \<Rightarrow> bool \<Rightarrow> bool \<Rightarrow> exn + CharmConfig" where
  "CharmConfig_init sched p skip owner =
     (case validate_schedule
             \<lparr>schedule = blank_string sched, paused = p, skip_immediately = skip,
              use_owner_references_in_backup = owner\<rparr> of
        Inl m \<Rightarrow> Inl (ValidationError [\<lparr>loc = [], msg = ''Value error, '' @ m\<rparr>])
      | Inr self \<Rightarrow> Inr self)"

definition is_scheduled :: "CharmConfig \<Rightarrow> bool" where
  "is_scheduled self = (schedule self \<noteq> None)"

definition is_paused :: "CharmConfig \<Rightarrow> bool" where
  "is_paused self = (paused self \<and> is_scheduled self)"

section \<open>The target specification: \<open>lib/charms/k8s_backup_libs/v0/backup_target.py\<close>\<close>

text \<open>\<open>DURATION_REGEX = r"^(?=.*\d)(?:(\d+)h)?(?:(\d+)m)?(?:(\d+)s)?$"\<close>\<close>

definition DURATION_REGEX :: rx where
  "DURATION_REGEX =
     Seqs [Bol, Look (Seq (Star AnyChar) Digit),
           Opt (Seq (Plus Digit) (Chr (CHR ''h''))),
           Opt (Seq (Plus Digit) (Chr (CHR ''m''))),
           Opt (Seq (Plus Digit) (Chr (CHR ''s''))), Eol]"

text \<open>
  \<open>Dict[str, str]\<close> is an association list in insertion order, the order in which the
  dictionary is iterated and written out.
\<close>

record BackupTargetSpec =
  include_namespaces :: "string list option"
  include_resources :: "string list option"
  exclude_namespaces :: "string list option"
  exclude_resources :: "string list option"
  label_selector :: "(string \<times> string) list option"
  ttl :: "string option"
  include_cluster_resources :: "bool option"

text \<open>\<open>__post_init__\<close>, as the class body writes it: \<open>Inl\<close> is the \<open>ValueError\<close> message.\<close>

definition post_init :: "BackupTargetSpec \<Rightarrow> string + unit" where
  "post_init self =
     (case ttl self of
        None \<Rightarrow> Inr ()
      | Some t \<Rightarrow>
          if t \<noteq> [] \<and> \<not> re_match DURATION_REGEX t
          then Inl (''Invalid TTL format: '' @ t @ ''. Expected format: '' @ [CHR 0x27] @ ''24h''
                    @ [CHR 0x27] @ '', '' @ [CHR 0x27] @ ''10h10m10s'' @ [CHR 0x27] @ '', etc.'')
          else Inr ())"

text \<open>
  \<open>BackupTargetSpec(include_namespaces=..., ..., ttl=...)\<close>. The class derives from
  pydantic's \<open>BaseModel\<close>, whose constructor checks each argument against the type of its
  field (here the types of the arguments already do) and stores it. \<open>__post_init__\<close> is a
  hook of dataclasses: a \<open>BaseModel\<close> never calls it, and nothing else in the program does.
\<close>

definition BackupTargetSpec_init ::
  "string list option \<Rightarrow> string list option \<Rightarrow> string list option \<Rightarrow> string list option \<Rightarrow>
   (string \<times> string) list option \<Rightarrow> string option \<Rightarrow> bool option \<Rightarrow> exn + BackupTargetSpec" where
  "BackupTargetSpec_init ins irs ens ers ls t icr =
     Inr \<lparr>include_namespaces = ins, include_resources = irs, exclude_namespaces = ens,
          exclude_resources = ers, label_selector = ls, ttl = t,
          include_cluster_resources = icr\<rparr>"

text \<open>
  The duration grammar in the words of the specification: an optional run of digits and
  \<open>h\<close>, then an optional run of digits and \<open>m\<close>, then an optional run of digits and \<open>s\<close>,
  with a digit somewhere.
\<close>

definition strip_unit :: "char \<Rightarrow> string \<Rightarrow> string" where
  "strip_unit u s =
     (let ds = takeWhile is_digit s; r = dropWhile is_digit s
      in if ds \<noteq> [] \<and> r \<noteq> [] \<and> hd r = u then tl r else s)"

definition spec_duration_grammar :: "string \<Rightarrow> bool" where
  "spec_duration_grammar s =
     (list_ex is_digit s \<and>
      strip_unit (CHR ''s'') (strip_unit (CHR ''m'') (strip_unit (CHR ''h'') s)) = [])"

section \<open>The juju model: relations and their databags\<close>

type_synonym databag = "string \<rightharpoonup> string"

record Relation =
  rel_id :: nat
  rel_name :: string
  rel_app :: "string option"
  remote_app_data :: databag
  local_app_data :: databag

text \<open>
  \<open>rel_app\<close> is the name of \<open>relation.app\<close>, None while the remote application is not
  known; \<open>remote_app_data\<close> is \<open>relation.data.get(relation.app, {})\<close> and
  \<open>local_app_data\<close> is \<open>relation.data[self.charm.app]\<close>.

  \<open>relation.data[app].update(d)\<close> stores the pairs of \<open>d\<close> one after the other. A databag
  of ops drops a key that is given the empty string.
\<close>

definition databag_set :: "string \<times> string \<Rightarrow> databag \<Rightarrow> databag" where
  "databag_set kv d = (if snd kv = [] then d(fst kv := None) else d(fst kv \<mapsto> snd kv))"

definition databag_update :: "databag \<Rightarrow> (string \<times> string) list \<Rightarrow> databag" where
  "databag_update d kvs = fold databag_set kvs d"

section \<open>Targets and the merge: \<open>core/domain.py\<close>\<close>

definition SPEC_FIELD :: string where "SPEC_FIELD = ''spec''"
definition APP_FIELD :: string where "APP_FIELD = ''app''"
definition RELATION_FIELD :: string where "RELATION_FIELD = ''relation_name''"
definition MODEL_FIELD :: string where "MODEL_FIELD = ''model''"

text \<open>
  Modelled from the spec: \<open>VeleroBackupSpec\<close> is declared in
  \<open>charms.velero_libs.v0.velero_backup_config\<close>, which is not among the sources. The
  specification gives its shape: that of the target specification plus \<open>schedule\<close>
  (a string or null), \<open>paused\<close>, \<open>skip_immediately\<close> and
  \<open>use_owner_references_in_backup\<close> (booleans). A key that is not given keeps its
  default: null, and false for the three booleans.
\<close>

record VeleroBackupSpec = BackupTargetSpec +
  velero_schedule :: "string option"
  velero_paused :: bool
  velero_skip_immediately :: bool
  velero_use_owner_references_in_backup :: bool

text \<open>The Python values that the fields of the two models hold.\<close>

datatype pyval =
    PNone
  | PBool bool
  | PStr string
  | PList "string list"
  | PDict "(string \<times> string) list"

definition opt_val :: "('a \<Rightarrow> pyval) \<Rightarrow> 'a option \<Rightarrow> pyval" where
  "opt_val f v = (case v of None \<Rightarrow> PNone | Some x \<Rightarrow> f x)"

text \<open>\<open>self.spec.model_dump()\<close>: the dictionary of the seven fields.\<close>

definition model_dump :: "BackupTargetSpec \<Rightarrow> (string \<rightharpoonup> pyval)" where
  "model_dump s =
     [''include_namespaces'' \<mapsto> opt_val PList (include_namespaces s),
      ''include_resources'' \<mapsto> opt_val PList (include_resources s),
      ''exclude_namespaces'' \<mapsto> opt_val PList (exclude_namespaces s),
      ''exclude_resources'' \<mapsto> opt_val PList (exclude_resources s),
      ''label_selector'' \<mapsto> opt_val PDict (label_selector s),
      ''ttl'' \<mapsto> opt_val PStr (ttl s),
      ''include_cluster_resources'' \<mapsto> opt_val PBool (include_cluster_resources s)]"

text \<open>
  Reading one key of the dictionary at the type of its field; the outer None is a value of
  another type, which pydantic reports. Only the shapes that \<open>model_dump\<close> and the
  configuration produce are told apart.
\<close>

fun as_list_opt :: "pyval option \<Rightarrow> string list option option" where
  "as_list_opt None = Some None"
| "as_list_opt (Some PNone) = Some None"
| "as_list_opt (Some (PList xs)) = Some (Some xs)"
| "as_list_opt (Some _) = None"

fun as_dict_opt :: "pyval option \<Rightarrow> (string \<times> string) list option option" where
  "as_dict_opt None = Some None"
| "as_dict_opt (Some PNone) = Some None"
| "as_dict_opt (Some (PDict kvs)) = Some (Some kvs)"
| "as_dict_opt (Some _) = None"

fun as_str_opt :: "pyval option \<Rightarrow> string option option" where
  "as_str_opt None = Some None"
| "as_str_opt (Some PNone) = Some None"
| "as_str_opt (Some (PStr s)) = Some (Some s)"
| "as_str_opt (Some _) = None"

fun as_bool_opt :: "pyval option \<Rightarrow> bool option option" where
  "as_bool_opt None = Some None"
| "as_bool_opt (Some PNone) = Some None"
| "as_bool_opt (Some (PBool b)) = Some (Some b)"
| "as_bool_opt (Some _) = None"

fun as_bool :: "pyval option \<Rightarrow> bool option" where
  "as_bool None = Some False"
| "as_bool (Some (PBool b)) = Some b"
| "as_bool (Some _) = None"

definition type_error :: "string \<Rightarrow> exn" where
  "type_error k = ValidationError [\<lparr>loc = [k], msg = ''Input should be a valid value''\<rparr>]"

text \<open>\<open>VeleroBackupSpec.model_validate(spec_dict)\<close>\<close>

definition model_validate :: "(string \<rightharpoonup> pyval) \<Rightarrow> exn + VeleroBackupSpec" where
  "model_validate d =
    (case as_list_opt (d ''include_namespaces'') of None \<Rightarrow> Inl (type_error ''include_namespaces'') | Some ins \<Rightarrow>
    (case as_list_opt (d ''include_resources'') of None \<Rightarrow> Inl (type_error ''include_resources'') | Some irs \<Rightarrow>
    (case as_list_opt (d ''exclude_namespaces'') of None \<Rightarrow> Inl (type_error ''exclude_namespaces'') | Some ens \<Rightarrow>
    (case as_list_opt (d ''exclude_resources'') of None \<Rightarrow> Inl (type_error ''exclude_resources'') | Some ers \<Rightarrow>
    (case as_dict_opt (d ''label_selector'') of None \<Rightarrow> Inl (type_error ''label_selector'') | Some ls \<Rightarrow>
    (case as_str_opt (d ''ttl'') of None \<Rightarrow> Inl (type_error ''ttl'') | Some t \<Rightarrow>
    (case as_bool_opt (d ''include_cluster_resources'') of None \<Rightarrow> Inl (type_error ''include_cluster_resources'') | Some icr \<Rightarrow>
    (case as_str_opt (d ''schedule'') of None \<Rightarrow> Inl (type_error ''schedule'') | Some sch \<Rightarrow>
    (case as_bool (d ''paused'') of None \<Rightarrow> Inl (type_error ''paused'') | Some p \<Rightarrow>
    (case as_bool (d ''skip_immediately'') of None \<Rightarrow> Inl (type_error ''skip_immediately'') | Some sk \<Rightarrow>
    (case as_bool (d ''use_owner_references_in_backup'') of None \<Rightarrow> Inl (type_error ''use_owner_references_in_backup'') | Some ow \<Rightarrow>
     Inr \<lparr>include_namespaces = ins, include_resources = irs, exclude_namespaces = ens,
          exclude_resources = ers, label_selector = ls, ttl = t,
          include_cluster_resources = icr, velero_schedule = sch, velero_paused = p,
          velero_skip_immediately = sk, velero_use_owner_references_in_backup = ow\<rparr>)))))))))))"

record BackupTargetInfo =
  spec :: BackupTargetSpec
  app_name :: string
  relation_name :: string
  model_name :: string
  relation :: Relation

datatype py_error = Raised exn | AttributeError string

text \<open>\<open>data.get(k) or default\<close>: the default stands in for a missing and for an empty value.\<close>

definition get_or :: "databag \<Rightarrow> string \<Rightarrow> string \<Rightarrow> string" where
  "get_or data k dflt = (case data k of None \<Rightarrow> dflt | Some v \<Rightarrow> if v = [] then dflt else v)"

text \<open>
  \<open>BackupTargetInfo.from_relation_data\<close>. \<open>BackupTargetSpec.model_validate_json\<close> belongs to
  pydantic and is a parameter here, \<open>Inl\<close> being any exception it raises. With no
  \<open>app\<close> in the databag the name is read from \<open>relation.app\<close>, and that raises
  \<open>AttributeError\<close> when the relation has no application.
\<close>

definition from_relation_data ::
  "(string \<Rightarrow> exn + BackupTargetSpec) \<Rightarrow> databag \<Rightarrow> Relation \<Rightarrow> string \<Rightarrow>
   py_error + BackupTargetInfo option" where
  "from_relation_data model_validate_json data rel default_model_name =
     (case data SPEC_FIELD of
        None \<Rightarrow> Inr None
      | Some spec_json \<Rightarrow>
          if spec_json = [] then Inr None
          else (case model_validate_json spec_json of
                  Inl e \<Rightarrow> Inr None
                | Inr sp \<Rightarrow>
                    (case (case data APP_FIELD of
                             None \<Rightarrow> rel_app rel
                           | Some a \<Rightarrow> if a = [] then rel_app rel else Some a) of
                       None \<Rightarrow> Inl (AttributeError ''name'')
                     | Some an \<Rightarrow>
                         Inr (Some \<lparr>spec = sp, app_name = an,
                                    relation_name = get_or data RELATION_FIELD (rel_name rel),
                                    model_name = get_or data MODEL_FIELD default_model_name,
                                    relation = rel\<rparr>))))"

text \<open>\<open>to_velero_spec\<close>: the dictionary of the target's fields, then the keys of the configuration.\<close>

definition to_velero_spec :: "BackupTargetInfo \<Rightarrow> CharmConfig \<Rightarrow> exn + VeleroBackupSpec" where
  "to_velero_spec self config =
     (let spec_dict = model_dump (spec self);
          spec_dict = (case schedule config of
                         None \<Rightarrow> spec_dict
                       | Some s \<Rightarrow> if s = [] then spec_dict else spec_dict(''schedule'' \<mapsto> PStr s));
          spec_dict = spec_dict(''paused'' \<mapsto> PBool (paused config));
          spec_dict = spec_dict(''skip_immediately'' \<mapsto> PBool (skip_immediately config));
          spec_dict = spec_dict(''use_owner_references_in_backup'' \<mapsto>
                                  PBool (use_owner_references_in_backup config))
      in model_validate spec_dict)"

text \<open>
  \<open>to_databag_dict\<close>: the four keys, in the order of the dictionary display.
  \<open>velero_spec.model_dump_json()\<close> belongs to pydantic and is the parameter.
\<close>

definition to_databag_dict ::
  "(VeleroBackupSpec \<Rightarrow> string) \<Rightarrow> BackupTargetInfo \<Rightarrow> VeleroBackupSpec \<Rightarrow> (string \<times> string) list" where
  "to_databag_dict model_dump_json self velero_spec =
     [(SPEC_FIELD, model_dump_json velero_spec),
      (APP_FIELD, app_name self),
      (RELATION_FIELD, relation_name self),
      (MODEL_FIELD, model_name self)]"

section \<open>The charm and its context: \<open>core/context.py\<close>\<close>

text \<open>
  \<open>self.charm.config\<close>: the options as juju holds them, None for an option that is not set.
\<close>

record config_options =
  opt_schedule :: "string option"
  opt_paused :: "bool option"
  opt_skip_immediately :: "bool option"
  opt_use_owner_references_in_backup :: "bool option"

datatype status =
    UnknownStatus
  | ActiveStatus string
  | BlockedStatus string
  | WaitingStatus string

text \<open>
  What one pass does to the databags is recorded as it happens: a read of the remote
  application's databag of a relation, and an update of the local application's databag.
\<close>

datatype event =
    ReadRemote nat
  | WriteLocal nat "(string \<times> string) list"

text \<open>
  The state that a pass sees and changes. \<open>velero_relations\<close> and \<open>k8s_backup_relations\<close>
  are \<open>model.relations\<close> at the endpoints \<open>velero-backup\<close> and \<open>k8s-backup-target\<close>,
  empty when the endpoint has no relation.
\<close>

record charm =
  is_leader :: bool
  config :: config_options
  charm_model_name :: string
  velero_relations :: "Relation list"
  k8s_backup_relations :: "Relation list"
  unit_status :: status
  trace :: "event list"

definition py_bool :: "bool option \<Rightarrow> bool" where
  "py_bool v = (case v of None \<Rightarrow> False | Some b \<Rightarrow> b)"

text \<open>The constructor call that both \<open>config\<close> and \<open>config_errors\<close> make.\<close>

definition build_config :: "charm \<Rightarrow> exn + CharmConfig" where
  "build_config c =
     CharmConfig_init (opt_schedule (config c))
       (py_bool (opt_paused (config c)))
       (py_bool (opt_skip_immediately (config c)))
       (py_bool (opt_use_owner_references_in_backup (config c)))"

definition Context_config :: "charm \<Rightarrow> CharmConfig option" where
  "Context_config c = (case build_config c of Inl e \<Rightarrow> None | Inr cfg \<Rightarrow> Some cfg)"

fun join :: "string \<Rightarrow> string list \<Rightarrow> string" where
  "join sep [] = []"
| "join sep [x] = x"
| "join sep (x # y # ys) = x @ sep @ join sep (y # ys)"

definition replace_char :: "char \<Rightarrow> char \<Rightarrow> string \<Rightarrow> string" where
  "replace_char a b s = map (\<lambda>c. if c = a then b else c) s"

definition config_errors :: "charm \<Rightarrow> string list" where
  "config_errors c =
     (case build_config c of
        Inr cfg \<Rightarrow> []
      | Inl (ValidationError errs) \<Rightarrow>
          map (\<lambda>err. join ''.'' (map (replace_char (CHR ''_'') (CHR ''-'')) (loc err))) errs)"

definition has_velero_relation :: "charm \<Rightarrow> bool" where
  "has_velero_relation c = (length (velero_relations c) > 0)"

definition has_k8s_backup_relation :: "charm \<Rightarrow> bool" where
  "has_k8s_backup_relation c = (length (k8s_backup_relations c) > 0)"

text \<open>
  The loop of \<open>get_backup_targets\<close> over the relations still to visit, with the targets
  collected and the events recorded so far.
\<close>

fun targets_loop ::
  "(string \<Rightarrow> exn + BackupTargetSpec) \<Rightarrow> string \<Rightarrow> Relation list \<Rightarrow>
   BackupTargetInfo list \<times> event list \<Rightarrow> py_error + BackupTargetInfo list \<times> event list" where
  "targets_loop V mn [] acc = Inr acc"
| "targets_loop V mn (r # rs) (targets, tr) =
     (case rel_app r of
        None \<Rightarrow> targets_loop V mn rs (targets, tr)
      | Some a \<Rightarrow>
          (case from_relation_data V (remote_app_data r) r mn of
             Inl e \<Rightarrow> Inl e
           | Inr None \<Rightarrow> targets_loop V mn rs (targets, tr @ [ReadRemote (rel_id r)])
           | Inr (Some target) \<Rightarrow>
               targets_loop V mn rs (targets @ [target], tr @ [ReadRemote (rel_id r)])))"

definition get_backup_targets ::
  "(string \<Rightarrow> exn + BackupTargetSpec) \<Rightarrow> charm \<Rightarrow> py_error + BackupTargetInfo list \<times> charm" where
  "get_backup_targets V c =
     (case targets_loop V (charm_model_name c) (k8s_backup_relations c) ([], trace c) of
        Inl e \<Rightarrow> Inl e
      | Inr (targets, tr) \<Rightarrow> Inr (targets, c\<lparr>trace := tr\<rparr>))"

section \<open>Publishing and the pass: \<open>events/velero_backup.py\<close>, \<open>events/general.py\<close>\<close>

text \<open>The loop of \<open>publish_to_relation\<close> over the targets, on one relation.\<close>

fun publish_loop ::
  "(VeleroBackupSpec \<Rightarrow> string) \<Rightarrow> CharmConfig \<Rightarrow> BackupTargetInfo list \<Rightarrow>
   Relation \<times> event list \<Rightarrow> py_error + Relation \<times> event list" where
  "publish_loop D cfg [] acc = Inr acc"
| "publish_loop D cfg (target # targets) (rel, tr) =
     (case to_velero_spec target cfg of
        Inl e \<Rightarrow> Inl (Raised e)
      | Inr velero_spec \<Rightarrow>
          (let databag = to_databag_dict D target velero_spec
           in publish_loop D cfg targets
                (rel\<lparr>local_app_data := databag_update (local_app_data rel) databag\<rparr>,
                 tr @ [WriteLocal (rel_id rel) databag])))"

text \<open>
  \<open>publish_to_relation\<close>: the relation is handed back as the call leaves it, with the charm.
\<close>

fun publish_to_relation ::
  "(string \<Rightarrow> exn + BackupTargetSpec) \<Rightarrow> (VeleroBackupSpec \<Rightarrow> string) \<Rightarrow> charm \<Rightarrow>
   Relation option \<Rightarrow> py_error + Relation option \<times> charm" where
  "publish_to_relation V D c None = Inr (None, c)"
| "publish_to_relation V D c (Some rel) =
     (if \<not> is_leader c then Inr (Some rel, c)
      else (case Context_config c of
              None \<Rightarrow> Inr (Some rel, c)
            | Some cfg \<Rightarrow>
                (case get_backup_targets V c of
                   Inl e \<Rightarrow> Inl e
                 | Inr (targets, c1) \<Rightarrow>
                     (case publish_loop D cfg targets (rel, trace c1) of
                        Inl e \<Rightarrow> Inl e
                      | Inr (rel1, tr) \<Rightarrow> Inr (Some rel1, c1\<lparr>trace := tr\<rparr>)))))"

text \<open>
  The loop of \<open>publish_to_all_relations\<close>: the relations still to visit, and those visited,
  as the calls left them.
\<close>

fun relations_loop ::
  "(string \<Rightarrow> exn + BackupTargetSpec) \<Rightarrow> (VeleroBackupSpec \<Rightarrow> string) \<Rightarrow> Relation list \<Rightarrow>
   Relation list \<times> charm \<Rightarrow> py_error + Relation list \<times> charm" where
  "relations_loop V D [] acc = Inr acc"
| "relations_loop V D (rel # rels) (visited, c) =
     (case publish_to_relation V D c (Some rel) of
        Inl e \<Rightarrow> Inl e
      | Inr (None, c1) \<Rightarrow> relations_loop V D rels (visited, c1)
      | Inr (Some rel1, c1) \<Rightarrow> relations_loop V D rels (visited @ [rel1], c1))"

definition publish_to_all_relations ::
  "(string \<Rightarrow> exn + BackupTargetSpec) \<Rightarrow> (VeleroBackupSpec \<Rightarrow> string) \<Rightarrow> charm \<Rightarrow>
   py_error + charm" where
  "publish_to_all_relations V D c =
     (if \<not> is_leader c then Inr c
      else (case relations_loop V D (velero_relations c) ([], c) of
              Inl e \<Rightarrow> Inl e
            | Inr (rels, c1) \<Rightarrow> Inr (c1\<lparr>velero_relations := rels\<rparr>)))"

text \<open>\<open>str\<close> of an optional string, as an f-string formats it.\<close>

definition py_str :: "string option \<Rightarrow> string" where
  "py_str v = (case v of None \<Rightarrow> ''None'' | Some s \<Rightarrow> s)"

definition quoted :: "string \<Rightarrow> string" where
  "quoted field = [CHR 0x27] @ field @ [CHR 0x27]"

text \<open>\<open>GeneralEvents._reconcile\<close>\<close>

definition reconcile ::
  "(string \<Rightarrow> exn + BackupTargetSpec) \<Rightarrow> (VeleroBackupSpec \<Rightarrow> string) \<Rightarrow> charm \<Rightarrow>
   py_error + charm" where
  "reconcile V D c =
     (if \<not> is_leader c then Inr (c\<lparr>unit_status := ActiveStatus ''Unit is ready (standby)''\<rparr>)
      else if config_errors c \<noteq> []
      then Inr (c\<lparr>unit_status :=
                  BlockedStatus (''Invalid configuration: '' @ join '', '' (map quoted (config_errors c)))\<rparr>)
      else if \<not> has_velero_relation c
      then Inr (c\<lparr>unit_status := BlockedStatus ''Missing relation: velero-backup''\<rparr>)
      else (case publish_to_all_relations V D c of
              Inl e \<Rightarrow> Inl e
            | Inr c1 \<Rightarrow>
                if \<not> has_k8s_backup_relation c1
                then Inr (c1\<lparr>unit_status := WaitingStatus ''Waiting for k8s-backup-target relation''\<rparr>)
                else (case Context_config c1 of
                        None \<Rightarrow> Inr (c1\<lparr>unit_status := ActiveStatus ''Manual backup mode''\<rparr>)
                      | Some cfg \<Rightarrow>
                          if is_scheduled cfg
                          then (if is_paused cfg
                                then Inr (c1\<lparr>unit_status := ActiveStatus ''Schedule paused''\<rparr>)
                                else Inr (c1\<lparr>unit_status :=
                                            ActiveStatus (''Schedule: '' @ py_str (schedule cfg))\<rparr>))
                          else Inr (c1\<lparr>unit_status := ActiveStatus ''Manual backup mode''\<rparr>))))"

section \<open>The JSON text of a target specification\<close>

text \<open>
  Modelled from the spec: \<open>model_dump_json\<close> and \<open>model_validate_json\<close> are inherited
  from pydantic's \<open>BaseModel\<close>; the sources contain the declaration of the fields only.
  The specification fixes the document: one JSON object with a member for each of the
  seven fields under the field's name, a list as an array of strings, the label selector
  as an object of strings, and null for a field that is absent. The printer below writes
  that object without whitespace, fields in the order of their declaration. The parser is
  a parser of JSON; it then reads the seven fields off the object, each at its type
  (strictly: no value of another type is converted), ignores other members, and lets the
  last of several members with one name win.
\<close>

definition dq :: char where "dq = CHR 0x22"
definition bs :: char where "bs = CHR 0x5C"

subsection \<open>Printing\<close>

definition hex_digit :: "nat \<Rightarrow> char" where
  "hex_digit n = (if n < 10 then char_of (48 + n) else char_of (87 + n))"

text \<open>
  A character inside a JSON string: the quote, the backslash and the control characters
  are escaped, the latter by their short form where JSON has one.
\<close>

definition esc_char :: "char \<Rightarrow> string" where
  "esc_char c =
     (if c = dq then [bs, dq]
      else if c = bs then [bs, bs]
      else if c = CHR 0x08 then [bs, CHR ''b'']
      else if c = CHR 0x0C then [bs, CHR ''f'']
      else if c = CHR 0x0A then [bs, CHR ''n'']
      else if c = CHR 0x0D then [bs, CHR ''r'']
      else if c = CHR 0x09 then [bs, CHR ''t'']
      else if (of_char c :: nat) < 32
      then [bs, CHR ''u'', CHR ''0'', CHR ''0'',
            hex_digit ((of_char c :: nat) div 16), hex_digit ((of_char c :: nat) mod 16)]
      else [c])"

definition json_string :: "string \<Rightarrow> string" where
  "json_string s = dq # concat (map esc_char s) @ [dq]"

definition json_array :: "string list \<Rightarrow> string" where
  "json_array xs = ''['' @ join '','' (map json_string xs) @ '']''"

definition json_member :: "string \<times> string \<Rightarrow> string" where
  "json_member kv = json_string (fst kv) @ '':'' @ snd kv"

definition json_object :: "(string \<times> string) list \<Rightarrow> string" where
  "json_object kvs = ''{'' @ join '','' (map json_member kvs) @ ''}''"

definition json_dict :: "(string \<times> string) list \<Rightarrow> string" where
  "json_dict kvs = json_object (map (\<lambda>(k, v). (k, json_string v)) kvs)"

definition json_bool :: "bool \<Rightarrow> string" where
  "json_bool b = (if b then ''true'' else ''false'')"

definition json_opt :: "('a \<Rightarrow> string) \<Rightarrow> 'a option \<Rightarrow> string" where
  "json_opt f v = (case v of None \<Rightarrow> ''null'' | Some x \<Rightarrow> f x)"

definition spec_members :: "BackupTargetSpec \<Rightarrow> (string \<times> string) list" where
  "spec_members x =
     [(''include_namespaces'', json_opt json_array (include_namespaces x)),
      (''include_resources'', json_opt json_array (include_resources x)),
      (''exclude_namespaces'', json_opt json_array (exclude_namespaces x)),
      (''exclude_resources'', json_opt json_array (exclude_resources x)),
      (''label_selector'', json_opt json_dict (label_selector x)),
      (''ttl'', json_opt json_string (ttl x)),
      (''include_cluster_resources'', json_opt json_bool (include_cluster_resources x))]"

text \<open>\<open>BackupTargetSpec.model_dump_json\<close>\<close>

definition spec_dump_json :: "BackupTargetSpec \<Rightarrow> string" where
  "spec_dump_json x = json_object (spec_members x)"

subsection \<open>Parsing\<close>

datatype json =
    JNull
  | JBool bool
  | JNumber string
  | JString string
  | JArray "json list"
  | JObject "(string \<times> json) list"

definition json_ws :: "char \<Rightarrow> bool" where
  "json_ws c = (c = CHR '' '' \<or> c = CHR 0x09 \<or> c = CHR 0x0A \<or> c = CHR 0x0D)"

definition hex_val :: "char \<Rightarrow> nat option" where
  "hex_val c =
     (let n = (of_char c :: nat)
      in if 48 \<le> n \<and> n \<le> 57 then Some (n - 48)
         else if 97 \<le> n \<and> n \<le> 102 then Some (n - 87)
         else if 65 \<le> n \<and> n \<le> 70 then Some (n - 55)
         else None)"

definition unescape :: "char \<Rightarrow> char option" where
  "unescape e =
     (if e = dq then Some dq
      else if e = bs then Some bs
      else if e = CHR ''/'' then Some (CHR ''/'')
      else if e = CHR ''b'' then Some (CHR 0x08)
      else if e = CHR ''f'' then Some (CHR 0x0C)
      else if e = CHR ''n'' then Some (CHR 0x0A)
      else if e = CHR ''r'' then Some (CHR 0x0D)
      else if e = CHR ''t'' then Some (CHR 0x09)
      else None)"

definition consume :: "'a \<Rightarrow> ('a list \<times> string) option \<Rightarrow> ('a list \<times> string) option" where
  "consume x res = (case res of None \<Rightarrow> None | Some (xs, r) \<Rightarrow> Some (x # xs, r))"

text \<open>
  \<open>\uXXXX\<close> with four hexadecimal digits; a code point from 256 on has no character in
  this model of strings, and the text is then refused.
\<close>

definition unicode_escape :: "string \<Rightarrow> char option" where
  "unicode_escape ds =
     (case map hex_val ds of
        [Some a, Some b, Some c, Some d] \<Rightarrow>
          (let cp = ((a * 16 + b) * 16 + c) * 16 + d
           in if cp < 256 then Some (char_of cp) else None)
      | _ \<Rightarrow> None)"

text \<open>The characters of a string up to its closing quote, after the opening one.\<close>

fun parse_chars :: "string \<Rightarrow> (string \<times> string) option" where
  "parse_chars [] = None"
| "parse_chars (c # cs) =
     (if c = dq then Some ([], cs)
      else if c = bs then
        (case cs of
           [] \<Rightarrow> None
         | e # r \<Rightarrow>
             if e = CHR ''u''
             then (case r of
                     h1 # h2 # h3 # h4 # r' \<Rightarrow>
                       (case unicode_escape [h1, h2, h3, h4] of
                          None \<Rightarrow> None
                        | Some x \<Rightarrow> consume x (parse_chars r'))
                   | _ \<Rightarrow> None)
             else (case unescape e of
                     None \<Rightarrow> None
                   | Some x \<Rightarrow> consume x (parse_chars r)))
      else if (of_char c :: nat) < 32 then None
      else consume c (parse_chars cs))"

text \<open>
  A number is kept as its text: an optional minus, an integer part without a leading zero,
  an optional fraction and an optional exponent.
\<close>

definition digits_then :: "string \<Rightarrow> (string \<times> string) option" where
  "digits_then s =
     (let ds = takeWhile is_digit s in if ds = [] then None else Some (ds, dropWhile is_digit s))"

definition parse_number :: "string \<Rightarrow> (string \<times> string) option" where
  "parse_number s =
     (let (sign, s1) = (case s of c # t \<Rightarrow> if c = CHR ''-'' then (''-'', t) else ([], s) | [] \<Rightarrow> ([], s))
      in case digits_then s1 of
           None \<Rightarrow> None
         | Some (ip, s2) \<Rightarrow>
             if 1 < length ip \<and> hd ip = CHR ''0'' then None
             else (case (case s2 of
                           c # t \<Rightarrow> if c = CHR ''.''
                                    then (case digits_then t of
                                            None \<Rightarrow> None
                                          | Some (f, s3) \<Rightarrow> Some (''.'' @ f, s3))
                                    else Some ([], s2)
                         | [] \<Rightarrow> Some ([], s2)) of
                     None \<Rightarrow> None
                   | Some (frac, s3) \<Rightarrow>
                       (case s3 of
                          c # t \<Rightarrow>
                            if c = CHR ''e'' \<or> c = CHR ''E''
                            then (let (es, t1) = (case t of
                                                    d # u \<Rightarrow> if d = CHR ''+'' \<or> d = CHR ''-''
                                                             then ([d], u) else ([], t)
                                                  | [] \<Rightarrow> ([], t))
                                  in case digits_then t1 of
                                       None \<Rightarrow> None
                                     | Some (ex, s4) \<Rightarrow> Some (sign @ ip @ frac @ [c] @ es @ ex, s4))
                            else Some (sign @ ip @ frac, s3)
                        | [] \<Rightarrow> Some (sign @ ip @ frac, s3))))"

text \<open>
  Values, the elements of an array after its bracket, and the members of an object after
  its brace. The first argument bounds the number of nested calls; \<open>json_loads\<close> starts
  it at twice the length of the text, plus one.
\<close>

fun parse_value :: "nat \<Rightarrow> string \<Rightarrow> (json \<times> string) option"
  and parse_elements :: "nat \<Rightarrow> string \<Rightarrow> (json list \<times> string) option"
  and parse_members :: "nat \<Rightarrow> string \<Rightarrow> ((string \<times> json) list \<times> string) option" where
  "parse_value 0 s = None"
| "parse_value (Suc n) s =
     (case dropWhile json_ws s of
        [] \<Rightarrow> None
      | c # r \<Rightarrow>
          if c = dq then (case parse_chars r of None \<Rightarrow> None | Some (x, r') \<Rightarrow> Some (JString x, r'))
          else if c = CHR ''[''
          then (case dropWhile json_ws r of
                  [] \<Rightarrow> None
                | c' # r' \<Rightarrow>
                    if c' = CHR '']'' then Some (JArray [], r')
                    else (case parse_elements n r of
                            None \<Rightarrow> None
                          | Some (vs, r'') \<Rightarrow> Some (JArray vs, r'')))
          else if c = CHR ''{''
          then (case dropWhile json_ws r of
                  [] \<Rightarrow> None
                | c' # r' \<Rightarrow>
                    if c' = CHR ''}'' then Some (JObject [], r')
                    else (case parse_members n r of
                            None \<Rightarrow> None
                          | Some (ms, r'') \<Rightarrow> Some (JObject ms, r'')))
          else if take 4 (c # r) = ''null'' then Some (JNull, drop 4 (c # r))
          else if take 4 (c # r) = ''true'' then Some (JBool True, drop 4 (c # r))
          else if take 5 (c # r) = ''false'' then Some (JBool False, drop 5 (c # r))
          else (case parse_number (c # r) of
                  None \<Rightarrow> None
                | Some (x, r') \<Rightarrow> Some (JNumber x, r')))"
| "parse_elements 0 s = None"
| "parse_elements (Suc n) s =
     (case parse_value n s of
        None \<Rightarrow> None
      | Some (v, r) \<Rightarrow>
          (case dropWhile json_ws r of
             [] \<Rightarrow> None
           | c # r' \<Rightarrow>
               if c = CHR '','' then consume v (parse_elements n r')
               else if c = CHR '']'' then Some ([v], r')
               else None))"
| "parse_members 0 s = None"
| "parse_members (Suc n) s =
     (case dropWhile json_ws s of
        [] \<Rightarrow> None
      | c # r \<Rightarrow>
          if c \<noteq> dq then None
          else (case parse_chars r of
                  None \<Rightarrow> None
                | Some (k, r1) \<Rightarrow>
                    (case dropWhile json_ws r1 of
                       [] \<Rightarrow> None
                     | c1 # r2 \<Rightarrow>
                         if c1 \<noteq> CHR '':'' then None
                         else (case parse_value n r2 of
                                 None \<Rightarrow> None
                               | Some (v, r3) \<Rightarrow>
                                   (case dropWhile json_ws r3 of
                                      [] \<Rightarrow> None
                                    | c3 # r4 \<Rightarrow>
                                        if c3 = CHR '','' then consume (k, v) (parse_members n r4)
                                        else if c3 = CHR ''}'' then Some ([(k, v)], r4)
                                        else None)))))"

text \<open>The whole text is one value, with whitespace around it at most.\<close>

definition json_loads :: "string \<Rightarrow> json option" where
  "json_loads s =
     (case parse_value (2 * length s + 1) s of
        None \<Rightarrow> None
      | Some (v, r) \<Rightarrow> if dropWhile json_ws r = [] then Some v else None)"

subsection \<open>Reading the fields\<close>

fun strings_of :: "json list \<Rightarrow> string list option" where
  "strings_of [] = Some []"
| "strings_of (JString s # vs) = (case strings_of vs of None \<Rightarrow> None | Some xs \<Rightarrow> Some (s # xs))"
| "strings_of (_ # vs) = None"

text \<open>
  A dictionary of strings from the members of an object: a name that comes again replaces
  the value and keeps its place, as assignment to a key of a Python dictionary does.
\<close>

fun dict_set :: "string \<Rightarrow> string \<Rightarrow> (string \<times> string) list \<Rightarrow> (string \<times> string) list" where
  "dict_set k v [] = [(k, v)]"
| "dict_set k v (p # ps) = (if fst p = k then (k, v) # ps else p # dict_set k v ps)"

fun dict_of :: "(string \<times> json) list \<Rightarrow> (string \<times> string) list \<Rightarrow> (string \<times> string) list option" where
  "dict_of [] acc = Some acc"
| "dict_of ((k, JString v) # ms) acc = dict_of ms (dict_set k v acc)"
| "dict_of (_ # ms) acc = None"

fun field_list :: "json option \<Rightarrow> string list option option" where
  "field_list None = Some None"
| "field_list (Some JNull) = Some None"
| "field_list (Some (JArray vs)) = (case strings_of vs of None \<Rightarrow> None | Some xs \<Rightarrow> Some (Some xs))"
| "field_list (Some _) = None"

fun field_dict :: "json option \<Rightarrow> (string \<times> string) list option option" where
  "field_dict None = Some None"
| "field_dict (Some JNull) = Some None"
| "field_dict (Some (JObject ms)) = (case dict_of ms [] of None \<Rightarrow> None | Some d \<Rightarrow> Some (Some d))"
| "field_dict (Some _) = None"

fun field_str :: "json option \<Rightarrow> string option option" where
  "field_str None = Some None"
| "field_str (Some JNull) = Some None"
| "field_str (Some (JString s)) = Some (Some s)"
| "field_str (Some _) = None"

fun field_bool :: "json option \<Rightarrow> bool option option" where
  "field_bool None = Some None"
| "field_bool (Some JNull) = Some None"
| "field_bool (Some (JBool b)) = Some (Some b)"
| "field_bool (Some _) = None"

definition spec_of_members :: "(string \<times> json) list \<Rightarrow> exn + BackupTargetSpec" where
  "spec_of_members ms =
    (let d = map_of (rev ms) in
    (case field_list (d ''include_namespaces'') of None \<Rightarrow> Inl (type_error ''include_namespaces'') | Some ins \<Rightarrow>
    (case field_list (d ''include_resources'') of None \<Rightarrow> Inl (type_error ''include_resources'') | Some irs \<Rightarrow>
    (case field_list (d ''exclude_namespaces'') of None \<Rightarrow> Inl (type_error ''exclude_namespaces'') | Some ens \<Rightarrow>
    (case field_list (d ''exclude_resources'') of None \<Rightarrow> Inl (type_error ''exclude_resources'') | Some ers \<Rightarrow>
    (case field_dict (d ''label_selector'') of None \<Rightarrow> Inl (type_error ''label_selector'') | Some ls \<Rightarrow>
    (case field_str (d ''ttl'') of None \<Rightarrow> Inl (type_error ''ttl'') | Some t \<Rightarrow>
    (case field_bool (d ''include_cluster_resources'') of None \<Rightarrow> Inl (type_error ''include_cluster_resources'') | Some icr \<Rightarrow>
     BackupTargetSpec_init ins irs ens ers ls t icr))))))))"

text \<open>\<open>BackupTargetSpec.model_validate_json\<close>\<close>

definition spec_validate_json :: "string \<Rightarrow> exn + BackupTargetSpec" where
  "spec_validate_json s =
     (case json_loads s of
        None \<Rightarrow> Inl (ValidationError [\<lparr>loc = [], msg = ''Invalid JSON''\<rparr>])
      | Some (JObject ms) \<Rightarrow> spec_of_members ms
      | Some _ \<Rightarrow> Inl (ValidationError [\<lparr>loc = [], msg = ''Input should be an object''\<rparr>]))"

text \<open>A dictionary holds each of its keys once.\<close>

definition spec_wf :: "BackupTargetSpec \<Rightarrow> bool" where
  "spec_wf x = (case label_selector x of None \<Rightarrow> True | Some kvs \<Rightarrow> distinct (map fst kvs))"

text \<open>
  For the proofs: a text that \<open>parse_value\<close> reads as a given value whatever follows it,
  from a given bound on; and the value that each field is printed as.
\<close>

definition reads :: "nat \<Rightarrow> string \<Rightarrow> json \<Rightarrow> bool" where
  "reads N txt v = (\<forall>n rest. N \<le> n \<longrightarrow> parse_value n (txt @ rest) = Some (v, rest))"

definition value_opt :: "('a \<Rightarrow> json) \<Rightarrow> 'a option \<Rightarrow> json" where
  "value_opt f v = (case v of None \<Rightarrow> JNull | Some x \<Rightarrow> f x)"

definition value_array :: "string list \<Rightarrow> json" where
  "value_array xs = JArray (map JString xs)"

definition value_dict :: "(string \<times> string) list \<Rightarrow> json" where
  "value_dict kvs = JObject (map (\<lambda>(k, v). (k, JString v)) kvs)"

definition spec_values :: "BackupTargetSpec \<Rightarrow> (string \<times> json) list" where
  "spec_values x =
     [(''include_namespaces'', value_opt value_array (include_namespaces x)),
      (''include_resources'', value_opt value_array (include_resources x)),
      (''exclude_namespaces'', value_opt value_array (exclude_namespaces x)),
      (''exclude_resources'', value_opt value_array (exclude_resources x)),
      (''label_selector'', value_opt value_dict (label_selector x)),
      (''ttl'', value_opt JString (ttl x)),
      (''include_cluster_resources'', value_opt JBool (include_cluster_resources x))]"

subsection \<open>The JSON text of a merged specification\<close>

text \<open>
  \<open>VeleroBackupSpec.model_dump_json\<close>, printed like the target specification, with the
  four members of the schedule after the seven of the target.
\<close>

definition velero_members :: "VeleroBackupSpec \<Rightarrow> (string \<times> string) list" where
  "velero_members v =
     [(''include_namespaces'', json_opt json_array (include_namespaces v)),
      (''include_resources'', json_opt json_array (include_resources v)),
      (''exclude_namespaces'', json_opt json_array (exclude_namespaces v)),
      (''exclude_resources'', json_opt json_array (exclude_resources v)),
      (''label_selector'', json_opt json_dict (label_selector v)),
      (''ttl'', json_opt json_string (ttl v)),
      (''include_cluster_resources'', json_opt json_bool (include_cluster_resources v)),
      (''schedule'', json_opt json_string (velero_schedule v)),
      (''paused'', json_bool (velero_paused v)),
      (''skip_immediately'', json_bool (velero_skip_immediately v)),
      (''use_owner_references_in_backup'', json_bool (velero_use_owner_references_in_backup v))]"

definition velero_dump_json :: "VeleroBackupSpec \<Rightarrow> string" where
  "velero_dump_json v = json_object (velero_members v)"

chapter \<open>Notions for the statements\<close>

section \<open>The schedule grammar, written out\<close>





text \<open>
  The pieces of \<open>s\<close> between its runs of whitespace; whitespace at either end leaves an
  empty piece there.
\<close>

function ws_fields :: "string \<Rightarrow> string list" where
  "ws_fields [] = [[]]"
| "ws_fields (x # xs) =
     (if is_space x then [] # ws_fields (dropWhile is_space xs)
      else (case ws_fields xs of [] \<Rightarrow> [[x]] | f # fs \<Rightarrow> (x # f) # fs))"
  by pat_completeness auto
termination
  by (relation "measure length") (auto simp: less_Suc_eq_le length_dropWhile_le)






section \<open>The words a pattern matches\<close>

text \<open>
  The set of strings that a pattern without \<open>^\<close>, \<open>$\<close> and lookahead matches from end
  to end; \<open>rests\<close> is related to it below.
\<close>

definition conc :: "string set \<Rightarrow> string set \<Rightarrow> string set" where
  "conc A B = {a @ b | a b. a \<in> A \<and> b \<in> B}"








section \<open>The merge, the targets and the records, in closed form\<close>

text \<open>
  The merge in the words of the specification: every field of the target's specification
  as it is, the schedule of the configuration (null when it has none), and the three flags
  of the configuration.
\<close>

definition spec_merge :: "BackupTargetInfo \<Rightarrow> CharmConfig \<Rightarrow> VeleroBackupSpec" where
  "spec_merge t cfg =
     BackupTargetSpec.extend (spec t)
       (VeleroBackupSpec.fields (schedule cfg) (paused cfg) (skip_immediately cfg)
          (use_owner_references_in_backup cfg))"

text \<open>
  The record that one pass of \<open>get_backup_targets\<close> builds for one relation, if any, and
  the read that it makes of it.
\<close>

definition target_of ::
  "(string \<Rightarrow> exn + BackupTargetSpec) \<Rightarrow> string \<Rightarrow> Relation \<Rightarrow> BackupTargetInfo option" where
  "target_of V mn r =
     (case rel_app r of
        None \<Rightarrow> None
      | Some a \<Rightarrow> (case from_relation_data V (remote_app_data r) r mn of
                    Inr (Some t) \<Rightarrow> Some t
                  | _ \<Rightarrow> None))"

definition read_of :: "Relation \<Rightarrow> event list" where
  "read_of r = (case rel_app r of None \<Rightarrow> [] | Some a \<Rightarrow> [ReadRemote (rel_id r)])"

text \<open>What \<open>publish_to_relation\<close> writes for one target, and what it does to one relation.\<close>

definition published_record ::
  "(VeleroBackupSpec \<Rightarrow> string) \<Rightarrow> CharmConfig \<Rightarrow> BackupTargetInfo \<Rightarrow> (string \<times> string) list" where
  "published_record D cfg t =
     to_databag_dict D t (spec_merge t (cfg\<lparr>schedule := blank_string (schedule cfg)\<rparr>))"

definition publish_one ::
  "(VeleroBackupSpec \<Rightarrow> string) \<Rightarrow> CharmConfig \<Rightarrow> BackupTargetInfo list \<Rightarrow> Relation \<Rightarrow> Relation" where
  "publish_one D cfg ts rel =
     rel\<lparr>local_app_data :=
           fold (\<lambda>t d. databag_update d (published_record D cfg t)) ts (local_app_data rel)\<rparr>"

definition publish_events ::
  "(VeleroBackupSpec \<Rightarrow> string) \<Rightarrow> CharmConfig \<Rightarrow> Relation list \<Rightarrow> BackupTargetInfo list \<Rightarrow>
   Relation \<Rightarrow> event list" where
  "publish_events D cfg ups ts rel =
     concat (map read_of ups) @ map (\<lambda>t. WriteLocal (rel_id rel) (published_record D cfg t)) ts"


section \<open>Sample states\<close>

definition sample_spec :: BackupTargetSpec where
  "sample_spec =
     \<lparr>include_namespaces = Some [''ns1''], include_resources = None, exclude_namespaces = None,
      exclude_resources = None, label_selector = None, ttl = Some ''24h'',
      include_cluster_resources = None\<rparr>"

definition sample_spec_full :: BackupTargetSpec where
  "sample_spec_full =
     \<lparr>include_namespaces = Some [''ns1'', ''a'' @ [dq, bs, CHR 0x01, CHR 0x0A] @ ''b''],
      include_resources = Some [], exclude_namespaces = None, exclude_resources = None,
      label_selector = Some [(''app'', ''x''), (''tier'', [])], ttl = Some ''24h'',
      include_cluster_resources = Some True\<rparr>"

text \<open>The payload of a client that publishes \<open>sample_spec\<close>, and one that is not JSON.\<close>

definition sample_payload :: string where
  "sample_payload = spec_dump_json sample_spec"


definition sample_upstream :: "nat \<Rightarrow> string \<Rightarrow> string \<Rightarrow> Relation" where
  "sample_upstream i a j =
     \<lparr>rel_id = i, rel_name = ''k8s-backup-target'', rel_app = Some a,
      remote_app_data = [''spec'' \<mapsto> j], local_app_data = Map.empty\<rparr>"

definition sample_downstream :: Relation where
  "sample_downstream =
     \<lparr>rel_id = 1, rel_name = ''velero-backup'', rel_app = Some ''velero'',
      remote_app_data = Map.empty, local_app_data = Map.empty\<rparr>"

definition sample_charm :: "bool \<Rightarrow> string \<Rightarrow> Relation list \<Rightarrow> charm" where
  "sample_charm leader sched ups =
     \<lparr>is_leader = leader,
      config = \<lparr>opt_schedule = Some sched, opt_paused = Some False,
                opt_skip_immediately = None, opt_use_owner_references_in_backup = None\<rparr>,
      charm_model_name = ''test-model'',
      velero_relations = [sample_downstream],
      k8s_backup_relations = ups,
      unit_status = UnknownStatus,
      trace = []\<rparr>"

definition sample_config :: CharmConfig where
  "sample_config =
     \<lparr>schedule = Some ''0 2 * * *'', paused = False, skip_immediately = False,
      use_owner_references_in_backup = False\<rparr>"

definition sample_target :: "nat \<Rightarrow> string \<Rightarrow> BackupTargetInfo" where
  "sample_target i a =
     \<lparr>spec = sample_spec, app_name = a, relation_name = ''k8s-backup-target'',
      model_name = ''test-model'', relation = sample_upstream i a sample_payload\<rparr>"

definition sample_merged :: VeleroBackupSpec where
  "sample_merged =
     \<lparr>include_namespaces = Some [''ns1''], include_resources = None,
      exclude_namespaces = None, exclude_resources = None, label_selector = None,
      ttl = Some ''24h'', include_cluster_resources = None,
      velero_schedule = Some ''0 2 * * *'', velero_paused = False,
      velero_skip_immediately = False, velero_use_owner_references_in_backup = False\<rparr>"

text \<open>
  The data of the repository's unit tests for the domain model: a relation named
  \<open>k8s-backup-target\<close> of the application \<open>remote-app\<close>, and the databags handed to
  \<open>from_relation_data\<close>.
\<close>

definition test_relation :: Relation where
  "test_relation =
     \<lparr>rel_id = 0, rel_name = ''k8s-backup-target'', rel_app = Some ''remote-app'',
      remote_app_data = Map.empty, local_app_data = Map.empty\<rparr>"

definition test_spec_json :: string where
  "test_spec_json =
     ''{'' @ [dq] @ ''include_namespaces'' @ [dq] @ '': ['' @ [dq] @ ''test-namespace'' @ [dq] @ '']}''"

definition test_spec :: BackupTargetSpec where
  "test_spec =
     \<lparr>include_namespaces = Some [''test-namespace''], include_resources = None,
      exclude_namespaces = None, exclude_resources = None, label_selector = None,
      ttl = None, include_cluster_resources = None\<rparr>"

definition test_valid_data :: databag where
  "test_valid_data =
     [''spec'' \<mapsto> test_spec_json, ''app'' \<mapsto> ''my-app'', ''relation_name'' \<mapsto> ''backup'',
      ''model'' \<mapsto> ''my-model'']"

definition test_not_a_list_json :: string where
  "test_not_a_list_json =
     ''{'' @ [dq] @ ''include_namespaces'' @ [dq] @ '': '' @ [dq] @ ''not-a-list'' @ [dq] @ ''}''"

chapter \<open>Properties\<close>

section \<open>The matcher and the words of a pattern\<close>




section \<open>Runs of one kind of character\<close>





section \<open>Items\<close>








section \<open>Splitting at a character\<close>






section \<open>Lists of items and fields\<close>




section \<open>Fields between runs of whitespace\<close>

lemma ws_fields_nonempty [simp]: "ws_fields s \<noteq> []"
  by (induction s rule: ws_fields.induct) (auto split: list.splits)







section \<open>Fields are words\<close>








section \<open>Five or six fields\<close>

lemma conc_eps [simp]: "conc A {[]} = A"
  by (auto simp: conc_def)



lemma conc_E: "s \<in> conc A B \<Longrightarrow> \<exists>a b. s = a @ b \<and> a \<in> A \<and> b \<in> B"
  by (auto simp: conc_def)

lemma conc_empty [simp]: "conc A {} = {}"
  by (simp add: conc_def)







section \<open>Which schedules construction accepts\<close>




section \<open>Configuration: what construction yields\<close>



lemma config_errors_valid: "build_config c = Inr cfg \<Longrightarrow> config_errors c = []"
  by (simp add: config_errors_def)

lemma build_config_trace [simp]: "build_config (c\<lparr>trace := tr\<rparr>) = build_config c"
  by (simp add: build_config_def)

lemma build_config_velero [simp]: "build_config (c\<lparr>velero_relations := rs\<rparr>) = build_config c"
  by (simp add: build_config_def)

lemma build_config_k8s [simp]: "build_config (c\<lparr>k8s_backup_relations := rs\<rparr>) = build_config c"
  by (simp add: build_config_def)

lemma CharmConfig_init_schedule:
  assumes "CharmConfig_init sched p sk ow = Inr cfg"
  shows "blank_string (schedule cfg) = schedule cfg"
  using assms
  by (auto simp: CharmConfig_init_def validate_schedule_def blank_string_def
      split: sum.splits option.splits if_splits)

lemma cron_sample: "re_match CRON_REGEX ''0 2 * * *''"
  by code_simp


lemma init_sample: "CharmConfig_init (Some ''0 2 * * *'') False False False = Inr sample_config"
  using cron_sample
  by (simp add: CharmConfig_init_def validate_schedule_def blank_string_def sample_config_def)

lemma build_sample: "build_config (sample_charm l ''0 2 * * *'' ups) = Inr sample_config"
  using init_sample by (simp add: build_config_def sample_charm_def py_bool_def)


section \<open>The empty schedule and the derived properties\<close>

text \<open>
  C6. Building the configuration with the empty string as schedule succeeds and gives a
  configuration without schedule. On every configuration, \<open>is_scheduled\<close> says whether a
  schedule is present, and \<open>is_paused\<close> holds exactly when it is scheduled and paused.
\<close>

theorem empty_schedule_is_absent:
  "CharmConfig_init (Some []) p sk ow =
     Inr \<lparr>schedule = None, paused = p, skip_immediately = sk,
          use_owner_references_in_backup = ow\<rparr> \<and>
   is_scheduled cfg = (schedule cfg \<noteq> None) \<and>
   is_paused cfg = (is_scheduled cfg \<and> paused cfg)"
  by (auto simp: CharmConfig_init_def validate_schedule_def blank_string_def is_scheduled_def
      is_paused_def)

section \<open>The TTL of a target specification\<close>

text \<open>
  C3. The claim is that a specification cannot be built with a TTL outside the duration
  grammar. The check exists, in \<open>__post_init__\<close>, and it rejects \<open>invalid\<close>; but building
  the model does not run it, so \<open>BackupTargetSpec(ttl="invalid")\<close> is built, with that TTL.
\<close>

theorem invalid_ttl_accepted:
  "\<not> spec_duration_grammar ''invalid'' \<and>
   BackupTargetSpec_init None None None None None (Some ''invalid'') None =
     Inr \<lparr>include_namespaces = None, include_resources = None, exclude_namespaces = None,
          exclude_resources = None, label_selector = None, ttl = Some ''invalid'',
          include_cluster_resources = None\<rparr> \<and>
   isl (post_init \<lparr>include_namespaces = None, include_resources = None,
          exclude_namespaces = None, exclude_resources = None, label_selector = None,
          ttl = Some ''invalid'', include_cluster_resources = None\<rparr>)"
proof -
  have "\<not> spec_duration_grammar ''invalid''"
    by (simp add: spec_duration_grammar_def is_digit_def)
  moreover have "\<not> re_match DURATION_REGEX ''invalid''"
    by code_simp
  ultimately show ?thesis
    by (simp add: BackupTargetSpec_init_def post_init_def)
qed

section \<open>Printing and parsing: strings\<close>

lemma hex_val_digit: "n < 16 \<Longrightarrow> hex_val (hex_digit n) = Some n"
  by (auto simp: hex_val_def hex_digit_def Let_def)

lemma unicode_escape_low:
  assumes "n < 32"
  shows "unicode_escape [CHR ''0'', CHR ''0'', hex_digit (n div 16), hex_digit (n mod 16)] =
           Some (char_of n)"
proof -
  have z: "hex_val (CHR ''0'') = Some 0" by (simp add: hex_val_def)
  have a: "hex_val (hex_digit (n div 16)) = Some (n div 16)"
    using assms by (intro hex_val_digit) simp
  have b: "hex_val (hex_digit (n mod 16)) = Some (n mod 16)"
    by (intro hex_val_digit) simp
  show ?thesis using assms by (simp add: unicode_escape_def z a b)
qed

lemma parse_chars_esc: "parse_chars (esc_char c @ t) = consume c (parse_chars t)"
proof -
  consider (q) "c = dq" | (b) "c = bs" | (s) "c \<in> {CHR 0x08, CHR 0x0C, CHR 0x0A, CHR 0x0D, CHR 0x09}"
    | (u) "c \<noteq> dq" "c \<noteq> bs" "c \<notin> {CHR 0x08, CHR 0x0C, CHR 0x0A, CHR 0x0D, CHR 0x09}"
          "(of_char c :: nat) < 32"
    | (p) "c \<noteq> dq" "c \<noteq> bs" "\<not> (of_char c :: nat) < 32"
    by fastforce
  then show ?thesis
  proof cases
    case q
    then show ?thesis by (simp add: esc_char_def unescape_def dq_def bs_def)
  next
    case b
    then show ?thesis by (simp add: esc_char_def unescape_def dq_def bs_def)
  next
    case s
    then show ?thesis by (auto simp: esc_char_def unescape_def dq_def bs_def)
  next
    case u
    have "unicode_escape [CHR ''0'', CHR ''0'', hex_digit (of_char c div 16), hex_digit (of_char c mod 16)] =
           Some (char_of (of_char c :: nat))"
      by (rule unicode_escape_low[OF u(4)])
    then show ?thesis using u by (simp add: esc_char_def dq_def bs_def)
  next
    case p
    then have "esc_char c = [c]" by (auto simp: esc_char_def)
    with p show ?thesis by simp
  qed
qed

lemma parse_chars_string: "parse_chars (concat (map esc_char s) @ dq # rest) = Some (s, rest)"
  by (induction s) (simp_all add: parse_chars_esc consume_def)

lemma not_ws [simp]:
  "\<not> json_ws dq" "\<not> json_ws (CHR ''['')" "\<not> json_ws (CHR '']'')" "\<not> json_ws (CHR ''{'')"
  "\<not> json_ws (CHR ''}'')" "\<not> json_ws (CHR '','')" "\<not> json_ws (CHR '':'')"
  "\<not> json_ws (CHR ''n'')" "\<not> json_ws (CHR ''t'')" "\<not> json_ws (CHR ''f'')"
  by (simp_all add: json_ws_def dq_def)

lemma dq_neq [simp]:
  "dq \<noteq> CHR ''[''" "dq \<noteq> CHR ''{''" "dq \<noteq> CHR '']''" "dq \<noteq> CHR ''}''" "dq \<noteq> CHR '',''"
  "CHR ''['' \<noteq> dq" "CHR ''{'' \<noteq> dq" "CHR ''n'' \<noteq> dq" "CHR ''t'' \<noteq> dq" "CHR ''f'' \<noteq> dq"
  by (simp_all add: dq_def)

section \<open>Printing and parsing: values\<close>

lemma reads_mono: "reads N txt v \<Longrightarrow> N \<le> M \<Longrightarrow> reads M txt v"
  by (simp add: reads_def)

lemma reads_string: "reads 1 (json_string s) (JString s)"
proof -
  have "parse_value (Suc n) (json_string s @ rest) = Some (JString s, rest)" for n rest
    by (simp add: json_string_def parse_chars_string)
  then show ?thesis unfolding reads_def by (metis Suc_le_D One_nat_def)
qed

lemma reads_null: "reads 1 ''null'' JNull"
proof -
  have "parse_value (Suc n) (''null'' @ rest) = Some (JNull, rest)" for n rest
    by simp
  then show ?thesis unfolding reads_def by (metis Suc_le_D One_nat_def)
qed

lemma reads_bool: "reads 1 (json_bool b) (JBool b)"
proof -
  have "parse_value (Suc n) (json_bool b @ rest) = Some (JBool b, rest)" for n rest
    by (cases b) (simp_all add: json_bool_def)
  then show ?thesis unfolding reads_def by (metis Suc_le_D One_nat_def)
qed

section \<open>Arrays of strings\<close>

lemma parse_elements_strings:
  "xs \<noteq> [] \<Longrightarrow> length xs < n \<Longrightarrow>
     parse_elements n (join '','' (map json_string xs) @ CHR '']'' # rest) =
       Some (map JString xs, rest)"
proof (induction xs arbitrary: n)
  case Nil
  then show ?case by simp
next
  case (Cons x xs)
  from Cons.prems(2) obtain m where n: "n = Suc (Suc m)" and m: "length xs \<le> m"
    by (cases n; cases "n - 1") auto
  have v: "parse_value (Suc m) (json_string x @ t) = Some (JString x, t)" for t
    using reads_string[of x] by (simp add: reads_def del: parse_value.simps)
  show ?case
  proof (cases xs)
    case Nil
    then show ?thesis using v[of "CHR '']'' # rest"] by (simp add: n)
  next
    case (Cons y ys)
    have "parse_elements (Suc m) (join '','' (map json_string xs) @ CHR '']'' # rest) =
            Some (map JString xs, rest)"
      using Cons.IH[of "Suc m"] Cons m by simp
    then show ?thesis using v[of "CHR '','' # join '','' (map json_string xs) @ CHR '']'' # rest"] Cons
      by (simp add: n consume_def)
  qed
qed

lemma json_string_hd: "\<exists>t. json_string s = dq # t"
  by (simp add: json_string_def)

lemma join_strings_hd:
  "xs \<noteq> [] \<Longrightarrow> \<exists>t. join '','' (map json_string xs) = dq # t"
proof (cases xs)
  case Nil
  then show "xs \<noteq> [] \<Longrightarrow> ?thesis" by simp
next
  case (Cons x ys)
  then show ?thesis by (cases ys) (simp_all add: json_string_def)
qed

lemma reads_array: "reads (length xs + 2) (json_array xs) (value_array xs)"
proof -
  have "parse_value (Suc n) (json_array xs @ rest) = Some (value_array xs, rest)"
    if "length xs < n" for n rest
  proof (cases "xs = []")
    case True
    then show ?thesis by (simp add: json_array_def value_array_def)
  next
    case False
    from join_strings_hd[OF False] obtain t where t: "join '','' (map json_string xs) = dq # t" by blast
    have "parse_elements n (join '','' (map json_string xs) @ CHR '']'' # rest) =
            Some (map JString xs, rest)"
      by (rule parse_elements_strings[OF False that])
    then have "parse_elements n (dq # t @ CHR '']'' # rest) = Some (map JString xs, rest)"
      by (simp add: t)
    then show ?thesis by (simp add: json_array_def value_array_def t)
  qed
  then have "parse_value n (json_array xs @ rest) = Some (value_array xs, rest)"
    if "length xs + 2 \<le> n" for n rest
    using that by (cases n) auto
  then show ?thesis by (simp add: reads_def)
qed

section \<open>Members of an object\<close>

lemma parse_members_reads:
  assumes "\<forall>(k, t, v) \<in> set fs. reads N t v"
  shows "fs \<noteq> [] \<Longrightarrow> N + length fs \<le> n \<Longrightarrow>
     parse_members n (join '','' (map (\<lambda>(k, t, v). json_member (k, t)) fs) @ CHR ''}'' # rest) =
       Some (map (\<lambda>(k, t, v). (k, v)) fs, rest)"
  using assms
proof (induction fs arbitrary: n)
  case Nil
  then show ?case by simp
next
  case (Cons f fs)
  obtain k t v where f: "f = (k, t, v)" by (cases f) auto
  from Cons.prems(2) obtain m where n: "n = Suc m" and m: "N + length fs \<le> m" "N \<le> m"
    by (cases n) auto
  from Cons.prems(3) f have "reads N t v" by simp
  with m(2) have v: "parse_value m (t @ u) = Some (v, u)" for u
    by (simp add: reads_def del: parse_value.simps)
  have key: "parse_chars (concat (map esc_char k) @ dq # u) = Some (k, u)" for u
    by (rule parse_chars_string)
  show ?case
  proof (cases fs)
    case Nil
    then show ?thesis using v[of "CHR ''}'' # rest"] key
      by (simp add: n f json_member_def json_string_def)
  next
    case (Cons g gs)
    have ih: "parse_members m (join '','' (map (\<lambda>(k, t, v). json_member (k, t)) fs) @ CHR ''}'' # rest) =
            Some (map (\<lambda>(k, t, v). (k, v)) fs, rest)"
      using Cons.IH[of m] Cons.prems(3) Cons m(1) by simp
    show ?thesis
      using v[of "CHR '','' # join '','' (map (\<lambda>(k, t, v). json_member (k, t)) fs) @ CHR ''}'' # rest"]
        key ih Cons
      by (simp add: n f json_member_def json_string_def consume_def)
  qed
qed

section \<open>Objects and dictionaries\<close>

lemma members_hd:
  "fs \<noteq> [] \<Longrightarrow> \<exists>u. join '','' (map (\<lambda>(k, t, v). json_member (k, t)) fs) = dq # u"
proof (cases fs)
  case Nil
  then show "fs \<noteq> [] \<Longrightarrow> ?thesis" by simp
next
  case (Cons f gs)
  then show ?thesis
    by (cases gs; cases f) (simp_all add: json_member_def json_string_def)
qed

lemma reads_object:
  assumes "\<forall>(k, t, v) \<in> set fs. reads N t v"
  shows "reads (N + length fs + 1) (json_object (map (\<lambda>(k, t, v). (k, t)) fs))
           (JObject (map (\<lambda>(k, t, v). (k, v)) fs))"
proof -
  have mm: "map json_member (map (\<lambda>(k, t, v). (k, t)) fs) = map (\<lambda>(k, t, v). json_member (k, t)) fs"
    by (induction fs) auto
  have "parse_value (Suc n) (json_object (map (\<lambda>(k, t, v). (k, t)) fs) @ rest) =
          Some (JObject (map (\<lambda>(k, t, v). (k, v)) fs), rest)"
    if n: "N + length fs \<le> n" for n rest
  proof (cases "fs = []")
    case True
    then show ?thesis by (simp add: json_object_def)
  next
    case False
    from members_hd[OF False] obtain u
      where u: "join '','' (map (\<lambda>(k, t, v). json_member (k, t)) fs) = dq # u" by blast
    have "parse_members n (join '','' (map (\<lambda>(k, t, v). json_member (k, t)) fs) @ CHR ''}'' # rest) =
            Some (map (\<lambda>(k, t, v). (k, v)) fs, rest)"
      by (rule parse_members_reads[OF assms False n])
    then have pm: "parse_members n (dq # u @ CHR ''}'' # rest) = Some (map (\<lambda>(k, t, v). (k, v)) fs, rest)"
      by (simp add: u)
    have doc: "json_object (map (\<lambda>(k, t, v). (k, t)) fs) @ rest = CHR ''{'' # dq # u @ CHR ''}'' # rest"
      unfolding json_object_def mm u by simp
    show ?thesis unfolding doc using pm by simp
  qed
  then have "parse_value n (json_object (map (\<lambda>(k, t, v). (k, t)) fs) @ rest) =
          Some (JObject (map (\<lambda>(k, t, v). (k, v)) fs), rest)"
    if "N + length fs + 1 \<le> n" for n rest
    using that by (cases n) auto
  then show ?thesis by (simp add: reads_def del: parse_value.simps)
qed

lemma reads_dict: "reads (length kvs + 2) (json_dict kvs) (value_dict kvs)"
proof -
  let ?fs = "map (\<lambda>(k, v). (k, json_string v, JString v)) kvs"
  have "\<forall>(k, t, v) \<in> set ?fs. reads 1 t v"
    using reads_string by auto
  from reads_object[OF this]
  have r: "reads (1 + length ?fs + 1) (json_object (map (\<lambda>(k, t, v). (k, t)) ?fs))
          (JObject (map (\<lambda>(k, t, v). (k, v)) ?fs))" .
  have a: "map (\<lambda>(k, t, v). (k, t)) ?fs = map (\<lambda>(k, v). (k, json_string v)) kvs"
    by (induction kvs) auto
  have b: "map (\<lambda>(k, t, v). (k, v)) ?fs = map (\<lambda>(k, v). (k, JString v)) kvs"
    by (induction kvs) auto
  have c: "1 + length ?fs + 1 = length kvs + 2" by simp
  show ?thesis unfolding json_dict_def value_dict_def using r unfolding a b c .
qed

section \<open>Lengths of texts\<close>

lemma length_join_ge:
  "\<forall>x \<in> set xs. c \<le> length x \<Longrightarrow> c * length xs \<le> length (join sep xs)"
  by (induction sep xs rule: join.induct) auto

lemma length_join_member:
  "x \<in> set xs \<Longrightarrow> length x \<le> length (join sep xs)"
  by (induction sep xs rule: join.induct) auto

lemma length_array: "length xs + 2 \<le> length (json_array xs)"
proof -
  have "\<forall>x \<in> set (map json_string xs). 1 \<le> length x" by (auto simp: json_string_def)
  from length_join_ge[OF this, of "'',''"] show ?thesis by (simp add: json_array_def)
qed

lemma length_dict: "length kvs + 2 \<le> length (json_dict kvs)"
proof -
  have "\<forall>x \<in> set (map json_member (map (\<lambda>(k, v). (k, json_string v)) kvs)). 1 \<le> length x"
    by (auto simp: json_member_def)
  from length_join_ge[OF this, of "'',''"] show ?thesis
    by (simp add: json_dict_def json_object_def)
qed

lemma length_object_member:
  assumes "(k, t) \<in> set kvs"
  shows "length t + 2 \<le> length (json_object kvs)"
proof -
  from assms have "json_member (k, t) \<in> set (map json_member kvs)" by force
  from length_join_member[OF this, of "'',''"]
  show ?thesis by (simp add: json_object_def json_member_def)
qed

section \<open>The text of each field\<close>

lemma reads_null_length: "reads (length ''null'') ''null'' JNull"
  by (rule reads_mono[OF reads_null]) simp

lemma reads_opt_array: "reads (length (json_opt json_array v)) (json_opt json_array v) (value_opt value_array v)"
proof (cases v)
  case None
  then show ?thesis using reads_null_length by (simp add: json_opt_def value_opt_def)
next
  case (Some xs)
  then show ?thesis using reads_mono[OF reads_array length_array, of xs]
    by (simp add: json_opt_def value_opt_def)
qed

lemma reads_opt_dict: "reads (length (json_opt json_dict v)) (json_opt json_dict v) (value_opt value_dict v)"
proof (cases v)
  case None
  then show ?thesis using reads_null_length by (simp add: json_opt_def value_opt_def)
next
  case (Some kvs)
  then show ?thesis using reads_mono[OF reads_dict length_dict, of kvs]
    by (simp add: json_opt_def value_opt_def)
qed

lemma reads_opt_string: "reads (length (json_opt json_string v)) (json_opt json_string v) (value_opt JString v)"
proof (cases v)
  case None
  then show ?thesis using reads_null_length by (simp add: json_opt_def value_opt_def)
next
  case (Some s)
  have "1 \<le> length (json_string s)" by (simp add: json_string_def)
  from reads_mono[OF reads_string this] Some show ?thesis
    by (simp add: json_opt_def value_opt_def)
qed

lemma reads_opt_bool: "reads (length (json_opt json_bool v)) (json_opt json_bool v) (value_opt JBool v)"
proof (cases v)
  case None
  then show ?thesis using reads_null_length by (simp add: json_opt_def value_opt_def)
next
  case (Some b)
  have "1 \<le> length (json_bool b)" by (simp add: json_bool_def)
  from reads_mono[OF reads_bool this] Some show ?thesis
    by (simp add: json_opt_def value_opt_def)
qed

section \<open>The document\<close>

lemma spec_members_reads:
  assumes "(k, t) \<in> set (spec_members x)" and "reads (length t) t v"
  shows "reads (length (spec_dump_json x)) t v"
proof -
  from length_object_member[OF assms(1)] have "length t \<le> length (spec_dump_json x)"
    by (simp add: spec_dump_json_def)
  from reads_mono[OF assms(2) this] show ?thesis .
qed

lemma reads_document:
  "reads (length (spec_dump_json x) + 8) (spec_dump_json x) (JObject (spec_values x))"
proof -
  let ?L = "length (spec_dump_json x)"
  let ?fs = "[(''include_namespaces'', json_opt json_array (include_namespaces x),
                 value_opt value_array (include_namespaces x)),
              (''include_resources'', json_opt json_array (include_resources x),
                 value_opt value_array (include_resources x)),
              (''exclude_namespaces'', json_opt json_array (exclude_namespaces x),
                 value_opt value_array (exclude_namespaces x)),
              (''exclude_resources'', json_opt json_array (exclude_resources x),
                 value_opt value_array (exclude_resources x)),
              (''label_selector'', json_opt json_dict (label_selector x),
                 value_opt value_dict (label_selector x)),
              (''ttl'', json_opt json_string (ttl x), value_opt JString (ttl x)),
              (''include_cluster_resources'', json_opt json_bool (include_cluster_resources x),
                 value_opt JBool (include_cluster_resources x))]"
  have m: "map (\<lambda>(k, t, v). (k, t)) ?fs = spec_members x"
    by (simp add: spec_members_def)
  have v: "map (\<lambda>(k, t, v). (k, v)) ?fs = spec_values x"
    by (simp add: spec_values_def)
  have r1: "reads ?L (json_opt json_array (include_namespaces x)) (value_opt value_array (include_namespaces x))"
    by (rule spec_members_reads[of "''include_namespaces''", OF _ reads_opt_array]) (simp add: spec_members_def)
  have r2: "reads ?L (json_opt json_array (include_resources x)) (value_opt value_array (include_resources x))"
    by (rule spec_members_reads[of "''include_resources''", OF _ reads_opt_array]) (simp add: spec_members_def)
  have r3: "reads ?L (json_opt json_array (exclude_namespaces x)) (value_opt value_array (exclude_namespaces x))"
    by (rule spec_members_reads[of "''exclude_namespaces''", OF _ reads_opt_array]) (simp add: spec_members_def)
  have r4: "reads ?L (json_opt json_array (exclude_resources x)) (value_opt value_array (exclude_resources x))"
    by (rule spec_members_reads[of "''exclude_resources''", OF _ reads_opt_array]) (simp add: spec_members_def)
  have r5: "reads ?L (json_opt json_dict (label_selector x)) (value_opt value_dict (label_selector x))"
    by (rule spec_members_reads[of "''label_selector''", OF _ reads_opt_dict]) (simp add: spec_members_def)
  have r6: "reads ?L (json_opt json_string (ttl x)) (value_opt JString (ttl x))"
    by (rule spec_members_reads[of "''ttl''", OF _ reads_opt_string]) (simp add: spec_members_def)
  have r7: "reads ?L (json_opt json_bool (include_cluster_resources x)) (value_opt JBool (include_cluster_resources x))"
    by (rule spec_members_reads[of "''include_cluster_resources''", OF _ reads_opt_bool]) (simp add: spec_members_def)
  have "\<forall>(k, t, v) \<in> set ?fs. reads ?L t v"
    using r1 r2 r3 r4 r5 r6 r7 by simp
  from reads_object[OF this]
  have "reads (?L + length ?fs + 1) (json_object (map (\<lambda>(k, t, v). (k, t)) ?fs))
          (JObject (map (\<lambda>(k, t, v). (k, v)) ?fs))" .
  moreover have "?L + length ?fs + 1 = ?L + 8" by simp
  ultimately show ?thesis unfolding m v spec_dump_json_def[symmetric] by (simp only:)
qed

lemma length_document: "7 \<le> length (spec_dump_json x)"
proof -
  have "\<forall>m \<in> set (map json_member (spec_members x)). 1 \<le> length m"
    by (auto simp: json_member_def)
  from length_join_ge[OF this, of "'',''"] show ?thesis
    by (simp add: spec_dump_json_def json_object_def spec_members_def)
qed

lemma json_loads_document: "json_loads (spec_dump_json x) = Some (JObject (spec_values x))"
proof -
  let ?L = "length (spec_dump_json x)"
  have "?L + 8 \<le> 2 * ?L + 1" using length_document[of x] by simp
  with reads_document[of x]
  have "parse_value (2 * ?L + 1) (spec_dump_json x @ []) = Some (JObject (spec_values x), [])"
    unfolding reads_def by blast
  then show ?thesis by (simp add: json_loads_def del: parse_value.simps)
qed

section \<open>Reading the fields back\<close>

lemma strings_of_strings: "strings_of (map JString xs) = Some xs"
  by (induction xs) simp_all

lemma dict_set_new: "k \<notin> fst ` set acc \<Longrightarrow> dict_set k v acc = acc @ [(k, v)]"
  by (induction acc) auto

lemma dict_of_strings:
  "distinct (map fst (acc @ kvs)) \<Longrightarrow>
     dict_of (map (\<lambda>(k, v). (k, JString v)) kvs) acc = Some (acc @ kvs)"
proof (induction kvs arbitrary: acc)
  case Nil
  then show ?case by simp
next
  case (Cons kv kvs)
  obtain k v where kv: "kv = (k, v)" by (cases kv) auto
  from Cons.prems kv have "k \<notin> fst ` set acc" by auto
  then have s: "dict_set k v acc = acc @ [(k, v)]" by (rule dict_set_new)
  from Cons.prems kv have "distinct (map fst ((acc @ [(k, v)]) @ kvs))" by simp
  from Cons.IH[OF this] s kv show ?case by simp
qed

lemma field_list_value: "field_list (Some (value_opt value_array v)) = Some v"
  by (cases v) (simp_all add: value_opt_def value_array_def strings_of_strings)

lemma field_dict_value:
  "(case v of None \<Rightarrow> True | Some kvs \<Rightarrow> distinct (map fst kvs)) \<Longrightarrow>
     field_dict (Some (value_opt value_dict v)) = Some v"
  using dict_of_strings[of "[]"]
  by (cases v) (simp_all add: value_opt_def value_dict_def)

lemma field_str_value: "field_str (Some (value_opt JString v)) = Some v"
  by (cases v) (simp_all add: value_opt_def)

lemma field_bool_value: "field_bool (Some (value_opt JBool v)) = Some v"
  by (cases v) (simp_all add: value_opt_def)

lemma spec_of_values: "spec_wf x \<Longrightarrow> spec_of_members (spec_values x) = Inr x"
  by (simp add: spec_of_members_def spec_values_def spec_wf_def field_list_value field_dict_value
      field_str_value field_bool_value BackupTargetSpec_init_def)

lemma spec_round_trip: "spec_wf x \<Longrightarrow> spec_validate_json (spec_dump_json x) = Inr x"
  by (simp add: spec_validate_json_def json_loads_document spec_of_values)

lemma json_object_nonempty: "json_object kvs \<noteq> []"
  by (simp add: json_object_def)

lemma velero_dump_json_nonempty: "velero_dump_json v \<noteq> []"
  by (simp add: velero_dump_json_def json_object_nonempty)

section \<open>The sample payloads\<close>

lemma sample_payload_valid: "spec_validate_json sample_payload = Inr sample_spec"
  unfolding sample_payload_def by (rule spec_round_trip) (simp add: spec_wf_def sample_spec_def)

lemma sample_payload_nonempty: "sample_payload \<noteq> []"
  by (simp add: sample_payload_def spec_dump_json_def json_object_nonempty)


section \<open>Serialising and parsing a target specification\<close>

text \<open>
  C9. Parsing the JSON text that a target specification is serialised to gives that
  specification back, field for field. The label selector is a dictionary, so it holds each
  key once; that is all that \<open>spec_wf\<close> asks.
\<close>

theorem json_round_trip:
  "spec_wf x \<Longrightarrow> spec_validate_json (spec_dump_json x) = Inr x"
proof -
  assume wf: "spec_wf x"
  have parsed: "json_loads (spec_dump_json x) = Some (JObject (spec_values x))"
    by (rule json_loads_document)
  have fields: "spec_of_members (spec_values x) = Inr x"
    using wf by (rule spec_of_values)
  show ?thesis
    by (simp add: spec_validate_json_def parsed fields)
qed

theorem json_round_trip_witness:
  "spec_wf sample_spec_full \<and>
   spec_validate_json (spec_dump_json sample_spec_full) = Inr sample_spec_full"
proof -
  have wf: "spec_wf sample_spec_full"
    by (simp add: spec_wf_def sample_spec_full_def)
  from json_round_trip[OF wf] wf show ?thesis by simp
qed

section \<open>The merge\<close>

lemma as_opt_simps [simp]:
  "as_list_opt (Some (opt_val PList a)) = Some a"
  "as_dict_opt (Some (opt_val PDict b)) = Some b"
  "as_str_opt (Some (opt_val PStr c)) = Some c"
  "as_bool_opt (Some (opt_val PBool d)) = Some d"
  by (cases a; cases b; cases c; cases d; simp add: opt_val_def)+

text \<open>
  \<open>to_velero_spec\<close> never raises; an empty schedule in the configuration counts as none,
  since the code tests the schedule for truth.
\<close>

lemma to_velero_spec_total:
  "to_velero_spec t cfg = Inr (spec_merge t (cfg\<lparr>schedule := blank_string (schedule cfg)\<rparr>))"
  by (cases "spec t")
     (simp add: to_velero_spec_def model_validate_def model_dump_def spec_merge_def blank_string_def
        BackupTargetSpec.extend_def VeleroBackupSpec.fields_def Let_def split: option.splits)

text \<open>
  C4. For a target and a configuration that construction has accepted, the merge gives a
  specification: its seven fields of the target specification are those of the target, its
  schedule is that of the configuration (so none where the configuration has none), and
  its three flags are those of the configuration.
\<close>

theorem merge_copies_and_overwrites:
  assumes "CharmConfig_init sched p sk ow = Inr cfg"
  shows "\<exists>v. to_velero_spec t cfg = Inr v \<and>
          v = spec_merge t cfg \<and>
          BackupTargetSpec.truncate v = spec t \<and>
          velero_schedule v = schedule cfg \<and>
          velero_paused v = paused cfg \<and>
          velero_skip_immediately v = skip_immediately cfg \<and>
          velero_use_owner_references_in_backup v = use_owner_references_in_backup cfg"
  using CharmConfig_init_schedule[OF assms]
  by (cases "spec t")
     (simp add: to_velero_spec_total spec_merge_def BackupTargetSpec.extend_def
        VeleroBackupSpec.fields_def BackupTargetSpec.truncate_def)

theorem merge_copies_and_overwrites_witness:
  "CharmConfig_init (Some ''0 2 * * *'') False False False = Inr sample_config \<and>
   to_velero_spec (sample_target 2 ''app1'') sample_config = Inr sample_merged"
  using merge_copies_and_overwrites[OF init_sample, of "sample_target 2 ''app1''"] init_sample
  by (auto simp: spec_merge_def sample_target_def sample_spec_def sample_config_def
      sample_merged_def BackupTargetSpec.extend_def VeleroBackupSpec.fields_def)

section \<open>Collecting the targets\<close>

lemma from_relation_data_app:
  "rel_app r = Some a \<Longrightarrow> \<exists>x. from_relation_data V data r mn = Inr x"
  by (simp add: from_relation_data_def split: option.splits sum.splits)


lemma targets_loop_eq:
  "targets_loop V mn rs (ts, tr) =
     Inr (ts @ List.map_filter (target_of V mn) rs, tr @ concat (map read_of rs))"
proof (induction rs arbitrary: ts tr)
  case Nil
  then show ?case by simp
next
  case (Cons r rs)
  show ?case
  proof (cases "rel_app r")
    case None
    then show ?thesis using Cons by (simp add: target_of_def read_of_def)
  next
    case (Some a)
    from from_relation_data_app[OF Some] obtain x
      where x: "from_relation_data V (remote_app_data r) r mn = Inr x" by blast
    show ?thesis using Cons Some x
      by (cases x) (simp_all add: target_of_def read_of_def)
  qed
qed

lemma get_backup_targets_eq:
  "get_backup_targets V c =
     Inr (List.map_filter (target_of V (charm_model_name c)) (k8s_backup_relations c),
          c\<lparr>trace := trace c @ concat (map read_of (k8s_backup_relations c))\<rparr>)"
  by (simp add: get_backup_targets_def targets_loop_eq)


section \<open>Publishing\<close>

lemma publish_loop_eq:
  "publish_loop D cfg ts (rel, tr) =
     Inr (rel\<lparr>local_app_data :=
                fold (\<lambda>t d. databag_update d (published_record D cfg t)) ts (local_app_data rel)\<rparr>,
          tr @ map (\<lambda>t. WriteLocal (rel_id rel) (published_record D cfg t)) ts)"
  by (induction ts arbitrary: rel tr)
     (simp_all add: to_velero_spec_total published_record_def Let_def)

lemma databag_update_snoc:
  "databag_update d (kvs @ [kv]) = databag_set kv (databag_update d kvs)"
  by (simp add: databag_update_def)

text \<open>After an update, a key holds what the last pair for it says; other keys are untouched.\<close>

lemma databag_update_apply:
  "databag_update d kvs k =
     (case map_of (rev kvs) k of None \<Rightarrow> d k | Some v \<Rightarrow> if v = [] then None else Some v)"
proof (induction kvs rule: rev_induct)
  case Nil
  then show ?case by (simp add: databag_update_def)
next
  case (snoc kv kvs)
  then show ?case
    by (cases kv) (simp add: databag_update_snoc databag_set_def)
qed

lemma databag_update_overwrites:
  assumes "map fst kvs1 = map fst kvs2"
  shows "databag_update (databag_update d kvs1) kvs2 = databag_update d kvs2"
proof
  fix k
  have "map_of (rev kvs1) k = None" if "map_of (rev kvs2) k = None"
  proof -
    from that have "k \<notin> set (map fst kvs2)" by (simp add: map_of_eq_None_iff)
    with assms have "k \<notin> set (map fst kvs1)" by simp
    then show ?thesis by (simp add: map_of_eq_None_iff)
  qed
  then show "databag_update (databag_update d kvs1) kvs2 k = databag_update d kvs2 k"
    by (auto simp: databag_update_apply split: option.splits)
qed

lemma published_record_keys:
  "map fst (published_record D cfg t) = [SPEC_FIELD, APP_FIELD, RELATION_FIELD, MODEL_FIELD]"
  by (simp add: published_record_def to_databag_dict_def)

lemma fold_publish_last:
  assumes "ts \<noteq> []"
  shows "fold (\<lambda>t d. databag_update d (published_record D cfg t)) ts d =
           databag_update d (published_record D cfg (last ts))"
  using assms
proof (induction ts rule: rev_induct)
  case Nil
  then show ?case by simp
next
  case (snoc t ts)
  show ?case
  proof (cases "ts = []")
    case True
    then show ?thesis by simp
  next
    case False
    with snoc show ?thesis
      by (simp add: databag_update_overwrites published_record_keys)
  qed
qed

lemma publish_to_relation_eq:
  assumes "is_leader c" and "build_config c = Inr cfg"
  shows "publish_to_relation V D c (Some rel) =
           Inr (Some (publish_one D cfg
                        (List.map_filter (target_of V (charm_model_name c)) (k8s_backup_relations c)) rel),
                c\<lparr>trace := trace c @
                   publish_events D cfg (k8s_backup_relations c)
                     (List.map_filter (target_of V (charm_model_name c)) (k8s_backup_relations c)) rel\<rparr>)"
  using assms
  by (simp add: Context_config_def get_backup_targets_eq publish_loop_eq publish_one_def
      publish_events_def)

lemma relations_loop_eq:
  assumes "is_leader c" and "build_config c = Inr cfg"
    and "ts = List.map_filter (target_of V (charm_model_name c)) (k8s_backup_relations c)"
  shows "relations_loop V D rels (visited, c) =
           Inr (visited @ map (publish_one D cfg ts) rels,
                c\<lparr>trace := trace c @
                   concat (map (publish_events D cfg (k8s_backup_relations c) ts) rels)\<rparr>)"
  using assms
proof (induction rels arbitrary: visited c)
  case Nil
  then show ?case by simp
next
  case (Cons rel rels)
  let ?c1 = "c\<lparr>trace := trace c @ publish_events D cfg (k8s_backup_relations c) ts rel\<rparr>"
  have step: "publish_to_relation V D c (Some rel) = Inr (Some (publish_one D cfg ts rel), ?c1)"
    using publish_to_relation_eq[OF Cons.prems(1,2)] Cons.prems(3) by simp
  have "relations_loop V D rels (visited @ [publish_one D cfg ts rel], ?c1) =
          Inr ((visited @ [publish_one D cfg ts rel]) @ map (publish_one D cfg ts) rels,
               ?c1\<lparr>trace := trace ?c1 @
                     concat (map (publish_events D cfg (k8s_backup_relations ?c1) ts) rels)\<rparr>)"
    by (rule Cons.IH) (use Cons.prems in simp_all)
  with step show ?case by simp
qed


lemma publish_to_all_relations_eq:
  assumes "is_leader c" and "build_config c = Inr cfg"
  shows "publish_to_all_relations V D c =
           Inr (c\<lparr>velero_relations :=
                    map (publish_one D cfg
                          (List.map_filter (target_of V (charm_model_name c)) (k8s_backup_relations c)))
                      (velero_relations c),
                  trace := trace c @
                    concat (map (publish_events D cfg (k8s_backup_relations c)
                          (List.map_filter (target_of V (charm_model_name c)) (k8s_backup_relations c)))
                      (velero_relations c))\<rparr>)"
  using assms relations_loop_eq[OF assms refl, of V D "velero_relations c" "[]"]
  by (simp add: publish_to_all_relations_def)


section \<open>The pass: standby, invalid configuration, waiting\<close>

text \<open>
  C1. Whatever the configuration and the relations on either side, a unit that is not the
  leader reports the fixed standby status and does nothing else: the pass hands back the
  charm as it was but for the status, so the record of reads and writes is as before and
  every databag of every relation is as before. Publishing, to all relations or to one,
  is without effect for such a unit too.
\<close>

theorem standby_no_effect:
  "\<not> is_leader c \<Longrightarrow>
     (\<exists>c'. reconcile V D c = Inr c' \<and>
           c' = c\<lparr>unit_status := ActiveStatus ''Unit is ready (standby)''\<rparr> \<and>
           trace c' = trace c \<and>
           velero_relations c' = velero_relations c \<and>
           k8s_backup_relations c' = k8s_backup_relations c) \<and>
     publish_to_all_relations V D c = Inr c \<and>
     publish_to_relation V D c r = Inr (r, c)"
proof -
  assume standby: "\<not> is_leader c"
  have pass: "reconcile V D c = Inr (c\<lparr>unit_status := ActiveStatus ''Unit is ready (standby)''\<rparr>)"
    using standby by (simp add: reconcile_def)
  have all: "publish_to_all_relations V D c = Inr c"
    using standby by (simp add: publish_to_all_relations_def)
  have one: "publish_to_relation V D c r = Inr (r, c)"
    using standby by (cases r) simp_all
  from pass all one show ?thesis by simp
qed

theorem standby_no_effect_witness:
  "\<not> is_leader (sample_charm False ''0 2 * * *'' [sample_upstream 2 ''app1'' sample_payload]) \<and>
   reconcile spec_validate_json velero_dump_json
     (sample_charm False ''0 2 * * *'' [sample_upstream 2 ''app1'' sample_payload]) =
   Inr ((sample_charm False ''0 2 * * *'' [sample_upstream 2 ''app1'' sample_payload])
          \<lparr>unit_status := ActiveStatus ''Unit is ready (standby)''\<rparr>)"
proof -
  have h: "\<not> is_leader (sample_charm False ''0 2 * * *'' [sample_upstream 2 ''app1'' sample_payload])"
    by (simp add: sample_charm_def)
  from standby_no_effect[OF h, of spec_validate_json velero_dump_json None] h
  show ?thesis by auto
qed



lemma relations_loop_no_targets:
  assumes "is_leader c" and "build_config c = Inr cfg" and "k8s_backup_relations c = []"
  shows "relations_loop V D rels (visited, c) = Inr (visited @ rels, c)"
  using assms
proof (induction rels arbitrary: visited)
  case Nil
  then show ?case by simp
next
  case (Cons r rels)
  have "publish_to_relation V D c (Some r) = Inr (Some r, c)"
    using Cons.prems by (simp add: Context_config_def get_backup_targets_def)
  then show ?case using Cons by simp
qed

text \<open>
  C7. A leader with a valid configuration, at least one \<open>velero-backup\<close> relation and no
  \<open>k8s-backup-target\<close> relation reports the waiting status, and the pass changes nothing
  else: no databag of a \<open>velero-backup\<close> relation is written, and no write is recorded.
\<close>

theorem waiting_no_write:
  assumes "is_leader c" and "build_config c = Inr cfg"
    and "velero_relations c \<noteq> []" and "k8s_backup_relations c = []"
  shows "\<exists>c'. reconcile V D c = Inr c' \<and>
           unit_status c' = WaitingStatus ''Waiting for k8s-backup-target relation'' \<and>
           velero_relations c' = velero_relations c \<and>
           trace c' = trace c"
  using assms config_errors_valid[OF assms(2)]
    relations_loop_no_targets[OF assms(1,2,4), of V D _ "[]"]
  by (simp add: reconcile_def has_velero_relation_def has_k8s_backup_relation_def
      publish_to_all_relations_def)

theorem waiting_no_write_witness:
  "\<exists>c'. reconcile spec_validate_json velero_dump_json (sample_charm True ''0 2 * * *'' []) = Inr c' \<and>
        unit_status c' = WaitingStatus ''Waiting for k8s-backup-target relation'' \<and>
        velero_relations c' = [sample_downstream] \<and>
        trace c' = []"
proof -
  let ?c = "sample_charm True ''0 2 * * *'' []"
  have l: "is_leader ?c" by (simp add: sample_charm_def)
  have v: "velero_relations ?c \<noteq> []" by (simp add: sample_charm_def)
  have k: "k8s_backup_relations ?c = []" by (simp add: sample_charm_def)
  from waiting_no_write[OF l build_sample v k, of spec_validate_json velero_dump_json]
  show ?thesis by (simp add: sample_charm_def)
qed

section \<open>Links without a usable specification, and several targets\<close>


lemma sample_target_of:
  "target_of spec_validate_json ''test-model'' (sample_upstream i a sample_payload) =
     Some (sample_target i a)"
  using sample_payload_valid sample_payload_nonempty
  by (simp add: target_of_def sample_upstream_def from_relation_data_def
      sample_target_def SPEC_FIELD_def APP_FIELD_def RELATION_FIELD_def MODEL_FIELD_def get_or_def)


text \<open>
  C10. Every record is written under the same four keys \<open>spec\<close>, \<open>app\<close>,
  \<open>relation_name\<close> and \<open>model\<close>. So when a pass of the leader with a valid configuration
  finds two or more targets, each \<open>velero-backup\<close> relation ends with its databag updated
  by the record of the last target alone: what the pass wrote there for the earlier
  targets is gone.
\<close>

theorem last_target_wins:
  assumes "is_leader c" and "build_config c = Inr cfg"
    and "get_backup_targets V c = Inr (targets, c1)" and "2 \<le> length targets"
  shows "map fst (to_databag_dict D t v) = [SPEC_FIELD, APP_FIELD, RELATION_FIELD, MODEL_FIELD] \<and>
         (\<exists>c' w. reconcile V D c = Inr c' \<and> to_velero_spec (last targets) cfg = Inr w \<and>
            velero_relations c' =
              map (\<lambda>rel. rel\<lparr>local_app_data :=
                     databag_update (local_app_data rel) (to_databag_dict D (last targets) w)\<rparr>)
                (velero_relations c))"
proof -
  let ?ts = "List.map_filter (target_of V (charm_model_name c)) (k8s_backup_relations c)"
  from assms(3) have ts: "targets = ?ts" by (simp add: get_backup_targets_eq)
  from assms(4) have ne: "targets \<noteq> []" by auto
  let ?w = "spec_merge (last targets) (cfg\<lparr>schedule := blank_string (schedule cfg)\<rparr>)"
  have w: "to_velero_spec (last targets) cfg = Inr ?w" by (rule to_velero_spec_total)
  have one: "publish_one D cfg targets =
       (\<lambda>rel. rel\<lparr>local_app_data :=
                  databag_update (local_app_data rel) (to_databag_dict D (last targets) ?w)\<rparr>)"
    using fold_publish_last[OF ne] by (simp add: publish_one_def published_record_def fun_eq_iff)
  have k8s: "k8s_backup_relations c \<noteq> []" using ts ne by auto
  have ce: "config_errors c = []" using assms(2) by (simp add: config_errors_def)
  show ?thesis
  proof (cases "velero_relations c = []")
    case True
    then show ?thesis using assms(1) ce w
      by (simp add: reconcile_def has_velero_relation_def to_databag_dict_def)
  next
    case False
    have "\<exists>c'. reconcile V D c = Inr c' \<and>
            velero_relations c' = map (publish_one D cfg targets) (velero_relations c)"
      using assms(1,2) ce False k8s publish_to_all_relations_eq[OF assms(1,2), of V D] ts
      by (auto simp: reconcile_def has_velero_relation_def has_k8s_backup_relation_def
          Context_config_def)
    then show ?thesis using w one by (simp add: to_databag_dict_def)
  qed
qed

theorem last_target_wins_witness:
  "\<exists>c'. reconcile spec_validate_json velero_dump_json
           (sample_charm True ''0 2 * * *''
              [sample_upstream 2 ''app1'' sample_payload, sample_upstream 3 ''app2'' sample_payload]) =
         Inr c' \<and>
        map local_app_data (velero_relations c') =
          [[''spec'' \<mapsto> velero_dump_json sample_merged, ''app'' \<mapsto> ''app2'',
            ''relation_name'' \<mapsto> ''k8s-backup-target'', ''model'' \<mapsto> ''test-model'']]"
proof -
  let ?c = "sample_charm True ''0 2 * * *''
              [sample_upstream 2 ''app1'' sample_payload, sample_upstream 3 ''app2'' sample_payload]"
  have l: "is_leader ?c" by (simp add: sample_charm_def)
  have g: "get_backup_targets spec_validate_json ?c =
      Inr ([sample_target 2 ''app1'', sample_target 3 ''app2''],
           ?c\<lparr>trace := trace ?c @ concat (map read_of (k8s_backup_relations ?c))\<rparr>)"
    by (simp add: get_backup_targets_eq)
       (simp add: sample_charm_def sample_target_of)
  have n: "2 \<le> length [sample_target 2 ''app1'', sample_target 3 ''app2'']" by simp
  have w: "spec_merge (sample_target 3 ''app2'')
             (sample_config\<lparr>schedule := blank_string (schedule sample_config)\<rparr>) = sample_merged"
    by (simp add: spec_merge_def sample_config_def sample_target_def sample_spec_def
        sample_merged_def blank_string_def BackupTargetSpec.extend_def VeleroBackupSpec.fields_def)
  from last_target_wins[OF l build_sample g n, of velero_dump_json]
  obtain c' where r: "reconcile spec_validate_json velero_dump_json ?c = Inr c'"
    and v: "velero_relations c' =
              map (\<lambda>rel. rel\<lparr>local_app_data :=
                     databag_update (local_app_data rel)
                       (to_databag_dict velero_dump_json (sample_target 3 ''app2'') sample_merged)\<rparr>)
                (velero_relations ?c)"
    by (auto simp: to_velero_spec_total w)
  have m: "map local_app_data (velero_relations c') =
          [[''spec'' \<mapsto> velero_dump_json sample_merged, ''app'' \<mapsto> ''app2'',
            ''relation_name'' \<mapsto> ''k8s-backup-target'', ''model'' \<mapsto> ''test-model'']]"
    unfolding v using velero_dump_json_nonempty[of sample_merged]
    by (simp add: sample_charm_def sample_downstream_def to_databag_dict_def databag_update_def
        databag_set_def SPEC_FIELD_def APP_FIELD_def RELATION_FIELD_def MODEL_FIELD_def
        sample_target_def)
  show ?thesis by (rule exI[of _ c']) (simp only: r m)
qed

section \<open>The unit tests of the repository, run on the model\<close>

text \<open>
  \<open>tests/unit/test_core_charm_config.py\<close>: the five schedules that the tests expect to be
  accepted and the two that they expect to be refused; the empty schedule; the derived
  properties.
\<close>

lemma test_cron_expressions:
  "map (\<lambda>s. isl (CharmConfig_init (Some s) False False False))
     [''0 2 * * *'', ''0 0 2 * * *'', ''0-30 2-5 * * 1-5'', ''*/15 * * * *'', ''0 2,14 * * *'',
      ''invalid-cron'', ''0 2 *''] =
   [False, False, False, False, False, True, True]"
  by code_simp

lemma test_is_paused:
  "map_sum id is_paused (CharmConfig_init (Some ''0 2 * * *'') True False False) = Inr True"
  "map_sum id is_paused (CharmConfig_init None True False False) = Inr False"
  "map_sum id is_paused (CharmConfig_init (Some ''0 2 * * *'') False False False) = Inr False"
  by code_simp+

text \<open>
  \<open>tests/unit/test_core_domain.py\<close>, with the parser of this development for
  \<open>model_validate_json\<close>: a valid databag, the defaults for missing keys, and the four
  databags that give no record.
\<close>

lemma test_spec_json_valid: "spec_validate_json test_spec_json = Inr test_spec"
  by code_simp

lemma test_spec_json_nonempty: "test_spec_json \<noteq> []"
  by (simp add: test_spec_json_def)

lemma test_from_relation_data_with_valid_data:
  "from_relation_data spec_validate_json test_valid_data test_relation ''default-model'' =
     Inr (Some \<lparr>spec = test_spec, app_name = ''my-app'', relation_name = ''backup'',
                model_name = ''my-model'', relation = test_relation\<rparr>)"
  using test_spec_json_valid test_spec_json_nonempty
  by (simp add: from_relation_data_def test_valid_data_def SPEC_FIELD_def APP_FIELD_def
      RELATION_FIELD_def MODEL_FIELD_def get_or_def)

lemma test_from_relation_data_uses_defaults:
  "from_relation_data spec_validate_json [''spec'' \<mapsto> test_spec_json] test_relation ''default-model'' =
     Inr (Some \<lparr>spec = test_spec, app_name = ''remote-app'', relation_name = ''k8s-backup-target'',
                model_name = ''default-model'', relation = test_relation\<rparr>)"
  using test_spec_json_valid test_spec_json_nonempty
  by (simp add: from_relation_data_def test_relation_def SPEC_FIELD_def APP_FIELD_def
      RELATION_FIELD_def MODEL_FIELD_def get_or_def)

lemma test_not_a_list_invalid: "isl (spec_validate_json test_not_a_list_json)"
  by code_simp

lemma test_from_relation_data_returns_none:
  "from_relation_data spec_validate_json [''app'' \<mapsto> ''my-app''] test_relation ''model'' = Inr None"
  "from_relation_data spec_validate_json [''spec'' \<mapsto> []] test_relation ''model'' = Inr None"
  "from_relation_data spec_validate_json [''spec'' \<mapsto> ''not-valid-json{''] test_relation ''model'' =
     Inr None"
  "from_relation_data spec_validate_json [''spec'' \<mapsto> test_not_a_list_json] test_relation ''model'' =
     Inr None"
proof -
  have a: "isl (spec_validate_json ''not-valid-json{'')"
    by code_simp
  have b: "''not-valid-json{'' \<noteq> []" "test_not_a_list_json \<noteq> []"
    by (simp_all add: test_not_a_list_json_def)
  show "from_relation_data spec_validate_json [''app'' \<mapsto> ''my-app''] test_relation ''model'' = Inr None"
    by (simp add: from_relation_data_def SPEC_FIELD_def)
  show "from_relation_data spec_validate_json [''spec'' \<mapsto> []] test_relation ''model'' = Inr None"
    by (simp add: from_relation_data_def SPEC_FIELD_def)
  show "from_relation_data spec_validate_json [''spec'' \<mapsto> ''not-valid-json{''] test_relation ''model'' =
     Inr None"
    using a b(1) by (auto simp: from_relation_data_def SPEC_FIELD_def isl_def)
  show "from_relation_data spec_validate_json [''spec'' \<mapsto> test_not_a_list_json] test_relation ''model'' =
     Inr None"
    using test_not_a_list_invalid b(2) by (auto simp: from_relation_data_def SPEC_FIELD_def isl_def)
qed

text \<open>
  \<open>tests/unit/test_events_handlers.py\<close>: a leader with both kinds of relation and the
  default configuration reports the manual mode and publishes a \<open>spec\<close>; a unit that is
  not the leader publishes nothing.
\<close>

lemma test_manual_mode:
  "\<exists>c'. reconcile spec_validate_json velero_dump_json
           (sample_charm True [] [sample_upstream 2 ''app1'' sample_payload]) = Inr c' \<and>
        unit_status c' = ActiveStatus ''Manual backup mode'' \<and>
        map (\<lambda>r. local_app_data r ''spec'' \<noteq> None) (velero_relations c') = [True]"
proof -
  let ?c = "sample_charm True [] [sample_upstream 2 ''app1'' sample_payload]"
  let ?cfg = "\<lparr>schedule = None, paused = False, skip_immediately = False,
               use_owner_references_in_backup = False\<rparr>"
  have l: "is_leader ?c" by (simp add: sample_charm_def)
  have b: "build_config ?c = Inr ?cfg"
    by (simp add: build_config_def sample_charm_def CharmConfig_init_def validate_schedule_def
        blank_string_def py_bool_def)
  have e: "config_errors ?c = []" using b by (rule config_errors_valid)
  have t: "List.map_filter (target_of spec_validate_json (charm_model_name ?c)) (k8s_backup_relations ?c) =
             [sample_target 2 ''app1'']"
    by (simp add: sample_charm_def sample_target_of)
  from publish_to_all_relations_eq[OF l b, of spec_validate_json velero_dump_json]
  obtain c1 where p: "publish_to_all_relations spec_validate_json velero_dump_json ?c = Inr c1"
    and v: "velero_relations c1 = map (publish_one velero_dump_json ?cfg [sample_target 2 ''app1''])
              (velero_relations ?c)"
    and k: "k8s_backup_relations c1 = k8s_backup_relations ?c"
    and bc: "build_config c1 = build_config ?c"
    unfolding t by simp
  have r: "reconcile spec_validate_json velero_dump_json ?c =
             Inr (c1\<lparr>unit_status := ActiveStatus ''Manual backup mode''\<rparr>)"
    using l e p k bc b
    by (simp add: reconcile_def has_velero_relation_def has_k8s_backup_relation_def
        Context_config_def is_scheduled_def sample_charm_def)
  have "map (\<lambda>r. local_app_data r ''spec'' \<noteq> None) (velero_relations c1) = [True]"
    unfolding v using velero_dump_json_nonempty
    by (simp add: sample_charm_def publish_one_def published_record_def to_databag_dict_def
        databag_update_def databag_set_def SPEC_FIELD_def APP_FIELD_def RELATION_FIELD_def
        MODEL_FIELD_def)
  with r show ?thesis by simp
qed

end
